theory Spec2Isabelle
  imports
    Complex_Main
    "HOL-Library.Sublist"
    "HOL-Library.Char_ord"
    "HOL-Library.List_Lexorder"
    "HOL-Library.AList"
begin

section \<open>Python strings\<close>

text \<open>
  A Python \<open>str\<close> is modelled as a \<open>string\<close>, a list of characters, each character being
  one code point; the type \<open>char\<close> has the code points \<open>0\<close> to \<open>255\<close>, so the texts
  modelled are those over that range.  The helpers below are the \<open>str\<close> methods and the
  character classes that \<open>client.py\<close> and \<open>parsers.py\<close> use, as Python defines them on
  these code points.
\<close>

text \<open>\<open>s.find(sub, start)\<close>: the lowest index \<open>i \<ge> start\<close> with \<open>s[i:].startswith(sub)\<close>;
  Python's \<open>-1\<close> is \<open>None\<close>.  \<open>find_aux\<close> walks the text from index \<open>i\<close> on.\<close>

fun find_aux :: "string \<Rightarrow> string \<Rightarrow> nat \<Rightarrow> nat option" where
  "find_aux sub [] i = (if sub = [] then Some i else None)"
| "find_aux sub (c # cs) i =
     (if prefix sub (c # cs) then Some i else find_aux sub cs (Suc i))"

definition str_find :: "string \<Rightarrow> string \<Rightarrow> nat \<Rightarrow> nat option" where
  "str_find s sub start =
     (if length s < start then None else find_aux sub (drop start s) start)"

text \<open>\<open>sub in s\<close>.\<close>

definition str_in :: "string \<Rightarrow> string \<Rightarrow> bool" where
  "str_in sub s = (str_find s sub 0 \<noteq> None)"

text \<open>\<open>s.lower()\<close>: the letters \<open>A\<close> to \<open>Z\<close> and the capital letters \<open>U+00C0\<close> to \<open>U+00DE\<close>
  (without the multiplication sign \<open>U+00D7\<close>) are moved up by 32.\<close>

definition lower_char :: "char \<Rightarrow> char" where
  "lower_char c =
     (let n = (of_char c :: nat) in
      if (65 \<le> n \<and> n \<le> 90) \<or> (192 \<le> n \<and> n \<le> 222 \<and> n \<noteq> 215)
      then char_of (n + 32) else c)"

definition str_lower :: "string \<Rightarrow> string" where
  "str_lower s = map lower_char s"

text \<open>The regular-expression classes \<open>\d\<close> (decimal digits) and \<open>\s\<close> (white space, also
  what \<open>str.strip\<close> removes): the ASCII white space with the four separators \<open>U+001C\<close> to
  \<open>U+001F\<close>, the next-line character \<open>U+0085\<close> and the no-break space \<open>U+00A0\<close>.\<close>

definition is_digit :: "char \<Rightarrow> bool" where
  "is_digit c = (c \<in> set ''0123456789'')"

definition is_space :: "char \<Rightarrow> bool" where
  "is_space c =
     (c \<in> set [CHR 0x09, CHR 0x0A, CHR 0x0B, CHR 0x0C, CHR 0x0D,
                CHR 0x1C, CHR 0x1D, CHR 0x1E, CHR 0x1F, CHR 0x20,
                CHR 0x85, CHR 0xA0])"

section \<open>The embedded-data extractor\<close>

text \<open>
  The first part of \<open>_parse_schedule_from_html\<close> (and of \<open>_parse_week_schedule_from_html\<close>):
  locate the marker, the first \<open>[\<close> from the marker on, and the closing bracket found by
  counting brackets.
\<close>

text \<open>\<open>events_start\<close>: \<open>html.find("Events : [")\<close>, and \<open>html.find("Events: [")\<close> only when
  the first spelling does not occur.\<close>

definition events_start :: "string \<Rightarrow> nat option" where
  "events_start html =
     (case str_find html ''Events : ['' 0 of
        Some i \<Rightarrow> Some i
      | None \<Rightarrow> str_find html ''Events: ['' 0)"

text \<open>The loop \<open>for i in range(array_start, len(html))\<close>: \<open>scan_brackets cs i n\<close> is the
  loop at index \<open>i\<close> with \<open>bracket_count = n\<close>, where \<open>cs = html[i:]\<close>; the result is
  \<open>array_end\<close>, or \<open>None\<close> when the loop ends with \<open>array_end == -1\<close>.\<close>

fun scan_brackets :: "string \<Rightarrow> nat \<Rightarrow> int \<Rightarrow> nat option" where
  "scan_brackets [] i n = None"
| "scan_brackets (c # cs) i n =
     (if c = CHR ''['' then scan_brackets cs (Suc i) (n + 1)
      else if c = CHR '']'' then
        (if n - 1 = 0 then Some (Suc i) else scan_brackets cs (Suc i) (n - 1))
      else scan_brackets cs (Suc i) n)"

definition array_start :: "string \<Rightarrow> nat option" where
  "array_start html =
     (case events_start html of
        None \<Rightarrow> None
      | Some es \<Rightarrow> str_find html ''['' es)"

definition array_end :: "string \<Rightarrow> nat option" where
  "array_end html =
     (case array_start html of
        None \<Rightarrow> None
      | Some a \<Rightarrow> scan_brackets (drop a html) a 0)"

text \<open>\<open>events_str = html[array_start:array_end]\<close>; \<open>None\<close> on each of the three early
  returns of an empty schedule.\<close>

definition events_str :: "string \<Rightarrow> string option" where
  "events_str html =
     (case array_start html of
        None \<Rightarrow> None
      | Some a \<Rightarrow>
          (case array_end html of
             None \<Rightarrow> None
           | Some e \<Rightarrow> Some (take (e - a) (drop a html))))"

text \<open>The nesting depth of a text: opening minus closing square brackets.\<close>

definition depth :: "string \<Rightarrow> int" where
  "depth s = int (length (filter (\<lambda>c. c = CHR ''['') s))
           - int (length (filter (\<lambda>c. c = CHR '']'') s))"

section \<open>Python values\<close>

text \<open>
  What \<open>json.loads\<close> returns: \<open>None\<close>, \<open>bool\<close>, \<open>int\<close>, \<open>float\<close>, \<open>str\<close>, \<open>list\<close> and
  \<open>dict\<close> (its items in insertion order, the keys distinct).  The fields of the domain
  model that the code fills from decoded JSON without checking their type hold such a
  value.
\<close>

datatype json =
    JNull
  | JBool bool
  | JInt int
  | JFloat rat
  | JStr string
  | JArr "json list"
  | JObj "(string \<times> json) list"

text \<open>The exceptions of the Python runtime and its libraries that the modelled code can
  meet, and the errors a caller of the client can see.\<close>

datatype pyexc =
    AttributeError
  | TypeError
  | ValueError
  | KeyError
  | JSONDecodeError
  | RecursionError

datatype error =
    WilmaAuthError string
  | WilmaAPIError string
  | Uncaught pyexc

text \<open>Truth value testing (\<open>if v:\<close>, \<open>not v\<close>).\<close>

fun truthy :: "json \<Rightarrow> bool" where
  "truthy JNull = False"
| "truthy (JBool b) = b"
| "truthy (JInt n) = (n \<noteq> 0)"
| "truthy (JFloat r) = (r \<noteq> 0)"
| "truthy (JStr s) = (s \<noteq> [])"
| "truthy (JArr xs) = (xs \<noteq> [])"
| "truthy (JObj kvs) = (kvs \<noteq> [])"

text \<open>\<open>v.get(k, d)\<close>: only a \<open>dict\<close> has the method.\<close>

fun dict_get :: "json \<Rightarrow> string \<Rightarrow> json \<Rightarrow> pyexc + json" where
  "dict_get (JObj kvs) k d = Inr (case map_of kvs k of Some v \<Rightarrow> v | None \<Rightarrow> d)"
| "dict_get _ k d = Inl AttributeError"

text \<open>\<open>for x in v\<close>: the items of a list, the keys of a dict, the characters of a string;
  \<open>None\<close> is the \<open>TypeError\<close> of a value that is not iterable.\<close>

fun py_iter :: "json \<Rightarrow> json list option" where
  "py_iter (JArr xs) = Some xs"
| "py_iter (JObj kvs) = Some (map (\<lambda>kv. JStr (fst kv)) kvs)"
| "py_iter (JStr s) = Some (map (\<lambda>c. JStr [c]) s)"
| "py_iter _ = None"

text \<open>Decimal digits of a natural number, and the format specification \<open>02d\<close>: at least
  two characters, padded with zeros after the sign.\<close>

definition digit_char :: "nat \<Rightarrow> char" where
  "digit_char d = ''0123456789'' ! d"

function dec_nat :: "nat \<Rightarrow> string" where
  "dec_nat n = (if n < 10 then [digit_char n] else dec_nat (n div 10) @ [digit_char (n mod 10)])"
  by pat_completeness auto
termination
  by (relation "measure (\<lambda>n. n)") auto

declare dec_nat.simps [simp del]

definition fmt_02d :: "int \<Rightarrow> string" where
  "fmt_02d n =
     (if n < 0 then CHR ''-'' # dec_nat (nat (- n))
      else if n < 10 then CHR ''0'' # dec_nat (nat n)
      else dec_nat (nat n))"

text \<open>A \<open>datetime.date\<close> and a \<open>datetime.datetime\<close> (which extends it), without the
  microseconds.\<close>

record py_date =
  year :: int
  month :: int
  day :: int

record datetime = py_date +
  hour :: int
  minute :: int
  second :: int

text \<open>What the code reads from the first \<open><form></form>\<close> element that
  \<open>BeautifulSoup(html, "html.parser").find("form")\<close> returns: the \<open>name\<close> and \<open>value\<close>
  attributes of its \<open>input\<close> elements of type \<open>hidden\<close> in document order, the \<open>name\<close>
  attribute of its first \<open>textarea\<close> (the outer \<open>None\<close>: no \<open>textarea\<close>), and its \<open>action\<close>
  attribute.\<close>

record form_tag =
  hidden_inputs :: "(string option \<times> string option) list"
  textarea :: "string option option"
  action :: "string option"

text \<open>The functions of the libraries that the code calls and that are taken as given:
  \<open>json.loads\<close> with the exception it raises (\<open>json.JSONDecodeError\<close> for a text that is not
  JSON, a plain \<open>ValueError\<close> for an integer literal beyond the digit limit, \<open>RecursionError\<close>
  for a nesting too deep), the built-in \<open>str\<close>, \<open>datetime.strptime(text, format)\<close> (\<open>None\<close> is
  its \<open>ValueError\<close>), and the form found by BeautifulSoup (\<open>None\<close>: the document has no
  form).\<close>

record pylib =
  json_loads :: "string \<Rightarrow> pyexc + json"
  py_str :: "json \<Rightarrow> string"
  strptime :: "string \<Rightarrow> string \<Rightarrow> datetime option"
  soup_form :: "string \<Rightarrow> form_tag option"

section \<open>Domain model (\<open>models.py\<close>)\<close>

record Lesson =
  start_time :: string
  end_time :: string
  subject :: json
  teacher :: json
  room :: json
  groups :: "string list"
  "notes" :: json

record DaySchedule =
  date :: py_date
  lessons :: "Lesson list"

text \<open>\<open>d.strftime("%d.%m.%Y")\<close>, for the years 1000 to 9999.\<close>

definition strftime_dmy :: "py_date \<Rightarrow> string" where
  "strftime_dmy d =
     fmt_02d (day d) @ ''.'' @ fmt_02d (month d) @ ''.'' @ dec_nat (nat (year d))"

section \<open>Event records to lessons (\<open>_parse_schedule_from_html\<close>)\<close>

text \<open>\<open>f"{m // 60:02d}:{m % 60:02d}"\<close>.  A \<open>bool\<close> is an \<open>int\<close>; floor division of a \<open>float\<close>
  gives a \<open>float\<close>, which the format code \<open>d\<close> refuses with \<open>ValueError\<close>; the other types
  have no \<open>//\<close> with an \<open>int\<close> (\<open>TypeError\<close>).\<close>

fun fmt_hhmm :: "json \<Rightarrow> pyexc + string" where
  "fmt_hhmm (JInt m) = Inr (fmt_02d (m div 60) @ '':'' @ fmt_02d (m mod 60))"
| "fmt_hhmm (JBool b) =
     Inr (fmt_02d (of_bool b div 60) @ '':'' @ fmt_02d (of_bool b mod 60))"
| "fmt_hhmm (JFloat r) = Inl ValueError"
| "fmt_hhmm _ = Inl TypeError"

text \<open>\<open>d.get("0", "") if isinstance(d, dict) else str(d)\<close>.\<close>

fun field0_or_str :: "pylib \<Rightarrow> json \<Rightarrow> json" where
  "field0_or_str L (JObj kvs) = (case map_of kvs ''0'' of Some v \<Rightarrow> v | None \<Rightarrow> JStr [])"
| "field0_or_str L v = JStr (py_str L v)"

text \<open>\<open>d.get("0", "") if isinstance(d, dict) else None\<close>.\<close>

fun field0_or_none :: "json \<Rightarrow> json" where
  "field0_or_none (JObj kvs) = (case map_of kvs ''0'' of Some v \<Rightarrow> v | None \<Rightarrow> JStr [])"
| "field0_or_none v = JNull"

text \<open>\<open>re.sub(r"^O:\s*", "", teacher)\<close>: the pattern can match at the start only.\<close>

definition re_sub_O :: "string \<Rightarrow> string" where
  "re_sub_O t = (if prefix ''O:'' t then dropWhile is_space (drop 2 t) else t)"

text \<open>\<open>if teacher: teacher = re.sub(...)\<close>; \<open>re.sub\<close> on a value that is not a string is a
  \<open>TypeError\<close>.\<close>

definition clean_teacher :: "json \<Rightarrow> pyexc + json" where
  "clean_teacher t =
     (if truthy t then (case t of JStr s \<Rightarrow> Inr (JStr (re_sub_O s)) | _ \<Rightarrow> Inl TypeError)
      else Inr t)"

text \<open>The body of the loop over the events: \<open>Inr None\<close> is \<open>continue\<close> (another date),
  \<open>Inr (Some l)\<close> the lesson appended, \<open>Inl e\<close> an exception raised in the body.\<close>

definition event_to_lesson :: "pylib \<Rightarrow> string \<Rightarrow> json \<Rightarrow> pyexc + Lesson option" where
  "event_to_lesson L target_date_str event =
     (case dict_get event ''Date'' (JStr []) of
        Inl e \<Rightarrow> Inl e
      | Inr event_date \<Rightarrow>
          if event_date \<noteq> JStr target_date_str then Inr None
          else
            (case (dict_get event ''Start'' (JInt 0), dict_get event ''End'' (JInt 0),
                   dict_get event ''Text'' (JObj []), dict_get event ''LongText'' (JObj []),
                   dict_get event ''Opet'' (JObj [])) of
               (Inr start_mins, Inr end_mins, Inr text_dict, Inr long_text_dict, Inr opet_dict) \<Rightarrow>
                 (case fmt_hhmm start_mins of
                    Inl e \<Rightarrow> Inl e
                  | Inr start_t \<Rightarrow>
                      (case fmt_hhmm end_mins of
                         Inl e \<Rightarrow> Inl e
                       | Inr end_t \<Rightarrow>
                           (case clean_teacher (field0_or_none opet_dict) of
                              Inl e \<Rightarrow> Inl e
                            | Inr t \<Rightarrow>
                                Inr (Some \<lparr>start_time = start_t, end_time = end_t,
                                      subject = field0_or_str L text_dict, teacher = t,
                                      room = JNull, groups = [],
                                      notes = field0_or_none long_text_dict\<rparr>))))
             | _ \<Rightarrow> Inl AttributeError))"

text \<open>\<open>for event in events\<close>, with the lessons appended so far: the loop ends normally
  (\<open>None\<close>) or at the first exception, and the lessons appended before it stay.\<close>

fun events_loop ::
  "pylib \<Rightarrow> string \<Rightarrow> json list \<Rightarrow> Lesson list \<Rightarrow> Lesson list \<times> pyexc option" where
  "events_loop L t [] acc = (acc, None)"
| "events_loop L t (ev # evs) acc =
     (case event_to_lesson L t ev of
        Inl e \<Rightarrow> (acc, Some e)
      | Inr None \<Rightarrow> events_loop L t evs acc
      | Inr (Some l) \<Rightarrow> events_loop L t evs (acc @ [l]))"

text \<open>The \<open>try\<close> block: decode, iterate, convert.  An exception of \<open>json.loads\<close> ends the
  block with no lesson.\<close>

definition try_events :: "pylib \<Rightarrow> string \<Rightarrow> string \<Rightarrow> Lesson list \<times> pyexc option" where
  "try_events L events_text target_date_str =
     (case json_loads L events_text of
        Inl e \<Rightarrow> ([], Some e)
      | Inr events \<Rightarrow>
          (case py_iter events of
             None \<Rightarrow> ([], Some TypeError)
           | Some evs \<Rightarrow> events_loop L target_date_str evs []))"

text \<open>\<open>except (json.JSONDecodeError, KeyError, TypeError): pass\<close>; every other exception
  leaves the function.\<close>

definition caught :: "pyexc \<Rightarrow> bool" where
  "caught e = (e = JSONDecodeError \<or> e = KeyError \<or> e = TypeError)"

definition parse_schedule_from_html :: "pylib \<Rightarrow> string \<Rightarrow> py_date \<Rightarrow> pyexc + DaySchedule" where
  "parse_schedule_from_html L html target_date =
     (case events_str html of
        None \<Rightarrow> Inr \<lparr>date = target_date, lessons = []\<rparr>
      | Some events_text \<Rightarrow>
          (case try_events L events_text (strftime_dmy target_date) of
             (ls, Some e) \<Rightarrow>
               if caught e
               then Inr \<lparr>date = target_date, lessons = sort_key start_time ls\<rparr>
               else Inl e
           | (ls, None) \<Rightarrow>
               Inr \<lparr>date = target_date, lessons = sort_key start_time ls\<rparr>))"


section \<open>Dates and times\<close>

definition is_leap :: "int \<Rightarrow> bool" where
  "is_leap y = (if y mod 100 = 0 then y mod 400 = 0 else y mod 4 = 0)"

definition days_in_month :: "int \<Rightarrow> int \<Rightarrow> int" where
  "days_in_month y m =
     (if m = 2 then (if is_leap y then 29 else 28)
      else if m = 4 \<or> m = 6 \<or> m = 9 \<or> m = 11 then 30 else 31)"

text \<open>The range checks of the \<open>datetime\<close> constructor.\<close>

definition valid_datetime :: "int \<Rightarrow> int \<Rightarrow> int \<Rightarrow> int \<Rightarrow> int \<Rightarrow> bool" where
  "valid_datetime y m d h mi =
     (1 \<le> y \<and> y \<le> 9999 \<and> 1 \<le> m \<and> m \<le> 12 \<and> 1 \<le> d \<and> d \<le> days_in_month y m
      \<and> 0 \<le> h \<and> h \<le> 23 \<and> 0 \<le> mi \<and> mi \<le> 59)"

text \<open>\<open>datetime(year, month, day, hour, minute)\<close>; \<open>None\<close> is its \<open>ValueError\<close>.\<close>

definition datetime_new :: "int \<Rightarrow> int \<Rightarrow> int \<Rightarrow> int \<Rightarrow> int \<Rightarrow> datetime option" where
  "datetime_new y m d h mi =
     (if valid_datetime y m d h mi
      then Some \<lparr>year = y, month = m, day = d, hour = h, minute = mi, second = 0\<rparr>
      else None)"

text \<open>\<open>parsed.replace(year=y)\<close>; \<open>None\<close> is its \<open>ValueError\<close>.\<close>

definition replace_year :: "datetime \<Rightarrow> int \<Rightarrow> datetime option" where
  "replace_year parsed y =
     (if valid_datetime y (month parsed) (day parsed) (hour parsed) (minute parsed)
      then Some (parsed\<lparr>year := y\<rparr>) else None)"

section \<open>Regular expressions of the timestamp parser (\<open>parsers.py\<close>)\<close>

text \<open>\<open>re.search\<close>: the match at the leftmost position that has one.  The argument is the
  match of the pattern anchored at the start of a text.\<close>

fun re_search :: "(string \<Rightarrow> 'a option) \<Rightarrow> string \<Rightarrow> 'a option" where
  "re_search m [] = m []"
| "re_search m (c # cs) =
     (case m (c # cs) of Some r \<Rightarrow> Some r | None \<Rightarrow> re_search m cs)"

text \<open>The longest run of at most \<open>n\<close> digits at the start of a text: the greedy \<open>\d{1,n}\<close>.  In
  the patterns below a shorter run never helps, since the character class after it has no
  digit.\<close>

definition take_digits :: "nat \<Rightarrow> string \<Rightarrow> string" where
  "take_digits n s = takeWhile is_digit (take n s)"

text \<open>\<open>int(s)\<close> for a text of decimal digits.\<close>

definition dec_val :: "string \<Rightarrow> int" where
  "dec_val s = foldl (\<lambda>a c. 10 * a + (int (of_char c) - 48)) 0 s"

text \<open>\<open>(\d{1,2})\.(\d{1,2})\.?(\d{2,4})?\<close> at the start of a text: the groups 1, 2 and 3.\<close>

definition date_match_at :: "string \<Rightarrow> (string \<times> string \<times> string option) option" where
  "date_match_at s =
     (let d1 = take_digits 2 s in
      if d1 = [] then None
      else (case drop (length d1) s of
              [] \<Rightarrow> None
            | c # r2 \<Rightarrow>
                if c \<noteq> CHR ''.'' then None
                else
                  (let d2 = take_digits 2 r2; r3 = drop (length d2) r2 in
                   if d2 = [] then None
                   else
                     (let r4 = (case r3 of [] \<Rightarrow> [] | c' # r \<Rightarrow> if c' = CHR ''.'' then r else r3);
                          d3 = take_digits 4 r4
                      in Some (d1, d2, if 2 \<le> length d3 then Some d3 else None)))))"

text \<open>\<open>(\d{1,2})[.:](\d{2})\<close> at the start of a text: the groups 1 and 2.\<close>

definition time_match_at :: "string \<Rightarrow> (string \<times> string) option" where
  "time_match_at s =
     (let h = take_digits 2 s in
      if h = [] then None
      else (case drop (length h) s of
              [] \<Rightarrow> None
            | c # r \<Rightarrow>
                if (c = CHR ''.'' \<or> c = CHR '':'') \<and> length (take_digits 2 r) = 2
                then Some (h, take 2 r) else None))"

section \<open>The markup timestamp parser (\<open>_parse_finnish_timestamp\<close>)\<close>

text \<open>\<open>s.strip()\<close>.\<close>

definition str_strip :: "string \<Rightarrow> string" where
  "str_strip s = rev (dropWhile is_space (rev (dropWhile is_space s)))"

definition formats :: "string list" where
  "formats = [''%d.%m.%Y %H:%M'', ''%d.%m.%Y %H.%M'', ''%d.%m.%Y'', ''%d.%m. %H:%M'',
              ''%d.%m.'', ''%Y-%m-%d %H:%M:%S'', ''%Y-%m-%d'']"

text \<open>The loop \<open>for fmt in formats\<close>: \<open>strptime\<close> and \<open>replace\<close> are inside the \<open>try\<close>, so a
  \<open>ValueError\<close> of either goes on to the next format.  \<open>now\<close> is the reading of the clock
  (\<open>datetime.now()\<close>).\<close>

fun try_formats :: "pylib \<Rightarrow> datetime \<Rightarrow> string \<Rightarrow> string list \<Rightarrow> datetime option" where
  "try_formats L now ts [] = None"
| "try_formats L now ts (fmt # fmts) =
     (case strptime L ts fmt of
        None \<Rightarrow> try_formats L now ts fmts
      | Some parsed \<Rightarrow>
          if year parsed = 1900 then
            (case replace_year parsed (year now) of
               None \<Rightarrow> try_formats L now ts fmts
             | Some p \<Rightarrow> Some p)
          else Some parsed)"

text \<open>The fallback after the loop: the components by regular expression.\<close>

definition extract_components :: "datetime \<Rightarrow> string \<Rightarrow> pyexc + datetime" where
  "extract_components now ts =
     (case re_search date_match_at ts of
        None \<Rightarrow> Inr now
      | Some (d, m, y) \<Rightarrow>
          (let y0 = (case y of Some ys \<Rightarrow> dec_val ys | None \<Rightarrow> year now);
               y1 = (if y0 < 100 then y0 + 2000 else y0);
               hm = (case re_search time_match_at ts of
                       Some (h, mi) \<Rightarrow> (dec_val h, dec_val mi)
                     | None \<Rightarrow> (0, 0))
           in case datetime_new y1 (dec_val m) (dec_val d) (fst hm) (snd hm) of
                None \<Rightarrow> Inl ValueError
              | Some t \<Rightarrow> Inr t))"

definition parse_finnish_timestamp :: "pylib \<Rightarrow> datetime \<Rightarrow> string \<Rightarrow> pyexc + datetime" where
  "parse_finnish_timestamp L now timestamp_str =
     (if timestamp_str = [] then Inr now
      else
        (let ts = str_strip timestamp_str in
         case try_formats L now ts formats of
           Some parsed \<Rightarrow> Inr parsed
         | None \<Rightarrow> extract_components now ts))"

section \<open>The message list (\<open>_parse_messages_json\<close>)\<close>

record MessageSummary =
  id_ms :: string
  subject_ms :: json
  sender :: json
  timestamp :: datetime
  is_read :: bool
  folder :: json

text \<open>\<open>xs[:n]\<close>.\<close>

definition slice_to :: "'a list \<Rightarrow> int \<Rightarrow> 'a list" where
  "slice_to xs n = (if 0 \<le> n then take (nat n) xs else take (length xs - nat (- n)) xs)"

text \<open>\<open>v != 0\<close>.\<close>

fun ne_zero :: "json \<Rightarrow> bool" where
  "ne_zero (JInt n) = (n \<noteq> 0)"
| "ne_zero (JBool b) = b"
| "ne_zero (JFloat r) = (r \<noteq> 0)"
| "ne_zero _ = True"

text \<open>The body of the loop over the items.  \<open>strptime\<close> of a value that is not a \<open>str\<close> is a
  \<open>TypeError\<close>; its \<open>ValueError\<close> is caught and gives the reading of the clock.\<close>

definition message_summary :: "pylib \<Rightarrow> datetime \<Rightarrow> string \<Rightarrow> json \<Rightarrow> pyexc + MessageSummary" where
  "message_summary L now folder_arg msg =
     (case dict_get msg ''TimeStamp'' (JStr []) of
        Inl e \<Rightarrow> Inl e
      | Inr (JStr timestamp_str) \<Rightarrow>
          (case (dict_get msg ''Id'' (JStr []), dict_get msg ''Subject'' (JStr []),
                 dict_get msg ''Sender'' (JStr []), dict_get msg ''Status'' (JInt 0),
                 dict_get msg ''Folder'' (JStr folder_arg)) of
             (Inr i, Inr su, Inr se, Inr st, Inr fo) \<Rightarrow>
               Inr \<lparr>id_ms = py_str L i, subject_ms = su, sender = se,
                    timestamp = (case strptime L timestamp_str ''%Y-%m-%d %H:%M'' of
                                   Some t \<Rightarrow> t | None \<Rightarrow> now),
                    is_read = ne_zero st, folder = fo\<rparr>
           | _ \<Rightarrow> Inl AttributeError)
      | Inr _ \<Rightarrow> Inl TypeError)"

fun summaries :: "pylib \<Rightarrow> datetime \<Rightarrow> string \<Rightarrow> json list \<Rightarrow> pyexc + MessageSummary list" where
  "summaries L now folder_arg [] = Inr []"
| "summaries L now folder_arg (msg # msgs) =
     (case message_summary L now folder_arg msg of
        Inl e \<Rightarrow> Inl e
      | Inr m \<Rightarrow>
          (case summaries L now folder_arg msgs of
             Inl e \<Rightarrow> Inl e
           | Inr ms \<Rightarrow> Inr (m # ms)))"

text \<open>\<open>msg_list[:limit]\<close> as the list of the items iterated: a list or a string can be
  sliced, the other values cannot (\<open>TypeError\<close>; for a dict, \<open>KeyError\<close> from Python 3.12
  on).\<close>

fun sliced_items :: "json \<Rightarrow> int \<Rightarrow> json list option" where
  "sliced_items (JArr xs) limit = Some (slice_to xs limit)"
| "sliced_items (JStr s) limit = Some (map (\<lambda>c. JStr [c]) (slice_to s limit))"
| "sliced_items _ limit = None"

definition parse_messages_json ::
  "pylib \<Rightarrow> datetime \<Rightarrow> json \<Rightarrow> string \<Rightarrow> int \<Rightarrow> pyexc + MessageSummary list" where
  "parse_messages_json L now data folder_arg limit =
     (case dict_get data ''Messages'' (JArr []) of
        Inl e \<Rightarrow> Inl e
      | Inr msg_list \<Rightarrow>
          (case sliced_items msg_list limit of
             None \<Rightarrow> Inl TypeError
           | Some msgs \<Rightarrow> summaries L now folder_arg msgs))"


section \<open>The HTTP transport\<close>

text \<open>
  A call of the \<open>httpx\<close> client, as the code sees it.  A request is its method, its path and
  its form data (the \<open>data\<close> argument, when given).  A response is its final URL after
  redirects (\<open>str(response.url)\<close>), its body (\<open>response.text\<close>) and its status code.
\<close>

record request =
  meth :: string
  path :: string
  form_data :: "(string \<times> json) list option"

record response =
  url :: string
  "text" :: string
  status_code :: nat

text \<open>The outcome of a call: an \<open>httpx.HTTPError\<close> raised by the transport, or a response
  together with what \<open>client.cookies.get("Wilma2SID")\<close> returns once the response has been
  received.\<close>

datatype outcome = HTTPError | Reply response "string option"

text \<open>The portal and the network: the outcome of the \<open>n\<close>-th call of the client, given the
  request.\<close>

type_synonym net = "nat \<Rightarrow> request \<Rightarrow> outcome"

text \<open>The state of a \<open>WilmaClient\<close>: its credentials, \<open>_session_id\<close> and \<open>_user_prefix\<close>, and
  (for the statements about what is sent) the requests issued so far, in order.\<close>

record client =
  username :: string
  password :: string
  session_id :: "string option"
  user_prefix :: "string option"
  sent :: "request list"

definition send_request :: "net \<Rightarrow> client \<Rightarrow> request \<Rightarrow> outcome \<times> client" where
  "send_request net c rq = (net (length (sent c)) rq, c\<lparr>sent := sent c @ [rq]\<rparr>)"

text \<open>\<open>response.raise_for_status()\<close> raises for a status outside \<open>2xx\<close>;
  \<open>response.json()\<close> decodes the body.  \<open>except ValueError\<close> catches \<open>ValueError\<close> and its
  subclass \<open>json.JSONDecodeError\<close>.\<close>

definition is_success :: "response \<Rightarrow> bool" where
  "is_success r = (200 \<le> status_code r \<and> status_code r < 300)"

definition response_json :: "pylib \<Rightarrow> response \<Rightarrow> pyexc + json" where
  "response_json L r = json_loads L (text r)"

definition is_value_error :: "pyexc \<Rightarrow> bool" where
  "is_value_error e = (e = ValueError \<or> e = JSONDecodeError)"

section \<open>The session manager (\<open>login\<close>, \<open>_ensure_authenticated\<close>)\<close>

text \<open>\<open>(/!\d+)\<close> at the start of a text, and \<open>href="(/!\d+)\<close> at the start of a text: group 1.\<close>

definition prefix_match_at :: "string \<Rightarrow> string option" where
  "prefix_match_at s =
     (if prefix ''/!'' s \<and> takeWhile is_digit (drop 2 s) \<noteq> []
      then Some (''/!'' @ takeWhile is_digit (drop 2 s)) else None)"

definition href_prefix_match_at :: "string \<Rightarrow> string option" where
  "href_prefix_match_at s =
     (if prefix ''href=\"'' s then prefix_match_at (drop 6 s) else None)"

definition index_request :: request where
  "index_request = \<lparr>meth = ''GET'', path = ''/index_json'', form_data = None\<rparr>"

definition login_request :: "client \<Rightarrow> json \<Rightarrow> request" where
  "login_request c session_token =
     \<lparr>meth = ''POST'', path = ''/login'',
      form_data = Some [(''Login'', JStr (username c)), (''Password'', JStr (password c)),
                        (''SESSIONID'', session_token)]\<rparr>"

text \<open>Step 1 of \<open>login\<close>: the session token from \<open>/index_json\<close>.  \<open>HTTPError\<close> (also the one of
  \<open>raise_for_status\<close>) and \<open>ValueError\<close> become \<open>WilmaAuthError\<close>; no clause catches another
  exception of \<open>response.json()\<close>, nor the \<open>AttributeError\<close> of \<open>.get\<close> on a decoded value that
  is not a dict.\<close>

definition get_session_token :: "pylib \<Rightarrow> net \<Rightarrow> client \<Rightarrow> (error + json) \<times> client" where
  "get_session_token L net c =
     (case send_request net c index_request of
        (HTTPError, c1) \<Rightarrow> (Inl (WilmaAuthError ''Failed to get session token''), c1)
      | (Reply index_response sid, c1) \<Rightarrow>
          if \<not> is_success index_response
          then (Inl (WilmaAuthError ''Failed to get session token''), c1)
          else
            (case response_json L index_response of
               Inl e \<Rightarrow>
                 if is_value_error e
                 then (Inl (WilmaAuthError ''Failed to parse index_json response''), c1)
                 else (Inl (Uncaught e), c1)
             | Inr index_data \<Rightarrow>
                 (case dict_get index_data ''SessionID'' JNull of
                    Inl e \<Rightarrow> (Inl (Uncaught e), c1)
                  | Inr session_token \<Rightarrow>
                      if \<not> truthy session_token
                      then (Inl (WilmaAuthError ''No SessionID received from index_json''), c1)
                      else (Inr session_token, c1))))"

text \<open>Step 2 and the prefix: the credential POST, the session cookie, and the user prefix
  from the final URL or else from the body.\<close>

definition post_credentials :: "net \<Rightarrow> client \<Rightarrow> json \<Rightarrow> (error + unit) \<times> client" where
  "post_credentials net c session_token =
     (case send_request net c (login_request c session_token) of
        (HTTPError, c1) \<Rightarrow> (Inl (WilmaAuthError ''Login request failed''), c1)
      | (Reply r sid, c1) \<Rightarrow>
          (let c2 = c1\<lparr>session_id := sid\<rparr> in
           if sid = None \<or> sid = Some []
           then (Inl (WilmaAuthError ''Login failed - no session cookie received''), c2)
           else
             (case re_search prefix_match_at (url r) of
                Some p \<Rightarrow> (Inr (), c2\<lparr>user_prefix := Some p\<rparr>)
              | None \<Rightarrow>
                  (case re_search href_prefix_match_at (text r) of
                     Some p \<Rightarrow> (Inr (), c2\<lparr>user_prefix := Some p\<rparr>)
                   | None \<Rightarrow>
                       (Inl (WilmaAuthError ''Could not determine user prefix after login''),
                        c2)))))"

definition login :: "pylib \<Rightarrow> net \<Rightarrow> client \<Rightarrow> (error + unit) \<times> client" where
  "login L net c =
     (case get_session_token L net c of
        (Inl e, c1) \<Rightarrow> (Inl e, c1)
      | (Inr session_token, c1) \<Rightarrow> post_credentials net c1 session_token)"

definition ensure_authenticated :: "pylib \<Rightarrow> net \<Rightarrow> client \<Rightarrow> (error + unit) \<times> client" where
  "ensure_authenticated L net c =
     (if session_id c = None \<or> user_prefix c = None then login L net c else (Inr (), c))"

section \<open>The authenticated request dispatcher (\<open>_request\<close>)\<close>

text \<open>\<open>f"{self._user_prefix}{path}"\<close> unless the path starts with \<open>/!\<close> or \<open>/preferences\<close>.\<close>

definition prefixed_path :: "client \<Rightarrow> string \<Rightarrow> string" where
  "prefixed_path c p =
     (if \<not> prefix ''/!'' p \<and> \<not> prefix ''/preferences'' p
      then (case user_prefix c of None \<Rightarrow> ''None'' | Some u \<Rightarrow> u) @ p
      else p)"

text \<open>The \<open>try\<close> block of \<open>_request\<close>, for the request \<open>rq\<close> with the path already rewritten.
  A response whose URL contains \<open>/login\<close> resets \<open>_session_id\<close>, logs in again and sends the
  request again; the response of that second call is returned as it is.  An \<open>HTTPError\<close> of
  either call becomes \<open>WilmaAPIError\<close>; the errors of \<open>login\<close> are not \<open>HTTPError\<close>s and pass
  through.\<close>

definition dispatch :: "pylib \<Rightarrow> net \<Rightarrow> client \<Rightarrow> request \<Rightarrow> (error + response) \<times> client" where
  "dispatch L net c rq =
     (case send_request net c rq of
        (HTTPError, c1) \<Rightarrow> (Inl (WilmaAPIError ''Request failed''), c1)
      | (Reply r sid, c1) \<Rightarrow>
          if str_in ''/login'' (str_lower (url r)) then
            (case login L net (c1\<lparr>session_id := None\<rparr>) of
               (Inl e, c2) \<Rightarrow> (Inl e, c2)
             | (Inr u, c2) \<Rightarrow>
                 (case send_request net c2 rq of
                    (HTTPError, c3) \<Rightarrow> (Inl (WilmaAPIError ''Request failed''), c3)
                  | (Reply r2 sid2, c3) \<Rightarrow> (Inr r2, c3)))
          else (Inr r, c1))"

definition request ::
  "pylib \<Rightarrow> net \<Rightarrow> client \<Rightarrow> string \<Rightarrow> string \<Rightarrow> (string \<times> json) list option
     \<Rightarrow> (error + response) \<times> client" where
  "request L net c method p data =
     (case ensure_authenticated L net c of
        (Inl e, c1) \<Rightarrow> (Inl e, c1)
      | (Inr u, c1) \<Rightarrow>
          dispatch L net c1 \<lparr>meth = method, path = prefixed_path c1 p, form_data = data\<rparr>)"

section \<open>The domain assemblers\<close>

definition get_schedule ::
  "pylib \<Rightarrow> net \<Rightarrow> client \<Rightarrow> py_date \<Rightarrow> (error + DaySchedule) \<times> client" where
  "get_schedule L net c target_date =
     (case request L net c ''GET'' (''/schedule?date='' @ strftime_dmy target_date) None of
        (Inl e, c1) \<Rightarrow> (Inl e, c1)
      | (Inr r, c1) \<Rightarrow>
          (case parse_schedule_from_html L (text r) target_date of
             Inl e \<Rightarrow> (Inl (Uncaught e), c1)
           | Inr ds \<Rightarrow> (Inr ds, c1)))"

text \<open>\<open>get_messages\<close>: the path does not depend on the folder.  \<open>except ValueError\<close> covers
  \<open>response.json()\<close> and \<open>_parse_messages_json\<close>; every other exception of the two leaves
  the function.\<close>

definition get_messages ::
  "pylib \<Rightarrow> net \<Rightarrow> datetime \<Rightarrow> client \<Rightarrow> string \<Rightarrow> int
     \<Rightarrow> (error + MessageSummary list) \<times> client" where
  "get_messages L net now c folder_arg limit =
     (case request L net c ''GET'' ''/messages/list/index_json'' None of
        (Inl e, c1) \<Rightarrow> (Inl e, c1)
      | (Inr r, c1) \<Rightarrow>
          (case response_json L r of
             Inl e \<Rightarrow>
               if is_value_error e
               then (Inl (WilmaAPIError ''Failed to parse messages response''), c1)
               else (Inl (Uncaught e), c1)
           | Inr data \<Rightarrow>
               (case parse_messages_json L now data folder_arg limit of
                  Inl e \<Rightarrow>
                    if is_value_error e
                    then (Inl (WilmaAPIError ''Failed to parse messages response''), c1)
                    else (Inl (Uncaught e), c1)
                | Inr ms \<Rightarrow> (Inr ms, c1))))"

text \<open>The two searches for the form key: \<open>name="formkey"\s+value="([^"]*)"\<close> and
  \<open>value="([^"]*)"\s+name="formkey"\<close>, each at the start of a text.  \<open>quoted_value\<close> is
  \<open>([^"]*)"\<close>: group 1 and the text after the closing quote.\<close>

definition quoted_value :: "string \<Rightarrow> (string \<times> string) option" where
  "quoted_value s =
     (case dropWhile (\<lambda>c. c \<noteq> CHR 0x22) s of
        [] \<Rightarrow> None
      | q # rest \<Rightarrow> Some (takeWhile (\<lambda>c. c \<noteq> CHR 0x22) s, rest))"

definition formkey_name_first_at :: "string \<Rightarrow> string option" where
  "formkey_name_first_at s =
     (if prefix ''name=\"formkey\"'' s \<and> takeWhile is_space (drop 14 s) \<noteq> []
         \<and> prefix ''value=\"'' (dropWhile is_space (drop 14 s))
      then map_option fst (quoted_value (drop 7 (dropWhile is_space (drop 14 s))))
      else None)"

definition formkey_value_first_at :: "string \<Rightarrow> string option" where
  "formkey_value_first_at s =
     (if prefix ''value=\"'' s then
        (case quoted_value (drop 7 s) of
           None \<Rightarrow> None
         | Some (v, rest) \<Rightarrow>
             if takeWhile is_space rest \<noteq> [] \<and> prefix ''name=\"formkey\"'' (dropWhile is_space rest)
             then Some v else None)
      else None)"

definition formkey_match :: "string \<Rightarrow> string option" where
  "formkey_match html =
     (case re_search formkey_name_first_at html of
        Some k \<Rightarrow> Some k
      | None \<Rightarrow> re_search formkey_value_first_at html)"

text \<open>\<open>",".join(xs)\<close>.\<close>

fun join_comma :: "string list \<Rightarrow> string" where
  "join_comma [] = []"
| "join_comma [x] = x"
| "join_comma (x # y # ys) = x @ '','' @ join_comma (y # ys)"

text \<open>The judgement of the response to the compose POST, the same in \<open>send_message\<close> and
  \<open>reply_to_message\<close> up to the text of the error.\<close>

definition judge_response :: "string \<Rightarrow> response \<Rightarrow> error + bool" where
  "judge_response msg r =
     (if str_in ''messages'' (str_lower (url r)) then Inr True
      else if str_in ''error'' (str_lower (text r)) \<or> str_in ''virhe'' (str_lower (text r))
      then Inl (WilmaAPIError msg)
      else Inr True)"

definition send_message ::
  "pylib \<Rightarrow> net \<Rightarrow> client \<Rightarrow> string list \<Rightarrow> string \<Rightarrow> string \<Rightarrow> string option
     \<Rightarrow> (error + bool) \<times> client" where
  "send_message L net c recipient_ids subj body reply_to_id =
     (case request L net c ''GET'' ''/messages/compose'' None of
        (Inl e, c1) \<Rightarrow> (Inl e, c1)
      | (Inr compose_response, c1) \<Rightarrow>
          (let formkey = (case formkey_match (text compose_response) of
                            Some k \<Rightarrow> k | None \<Rightarrow> []);
               data = [(''formkey'', JStr formkey), (''rcpt'', JStr (join_comma recipient_ids)),
                       (''subject'', JStr subj), (''body'', JStr body)]
                      @ (case reply_to_id of
                           None \<Rightarrow> []
                         | Some i \<Rightarrow> if i = [] then [] else [(''replyto'', JStr i)])
           in case request L net c1 ''POST'' ''/messages/compose'' (Some data) of
                (Inl e, c2) \<Rightarrow> (Inl e, c2)
              | (Inr r, c2) \<Rightarrow>
                  (judge_response ''Failed to send message - server returned an error'' r, c2)))"

text \<open>The hidden inputs of the reply form, added to the data in document order:
  \<open>if name and name != "formkey": data[name] = value\<close>, with \<open>""\<close> for a missing attribute.\<close>

fun add_hidden ::
  "(string option \<times> string option) list \<Rightarrow> (string \<times> string) list \<Rightarrow> (string \<times> string) list" where
  "add_hidden [] data = data"
| "add_hidden ((n, v) # hs) data =
     (let name = (case n of None \<Rightarrow> [] | Some x \<Rightarrow> x);
          val = (case v of None \<Rightarrow> [] | Some x \<Rightarrow> x)
      in if name \<noteq> [] \<and> name \<noteq> ''formkey''
         then add_hidden hs (AList.update name val data)
         else add_hidden hs data)"

text \<open>The form data and the POST path of a reply, from the compose form.\<close>

definition reply_data ::
  "form_tag option \<Rightarrow> string \<Rightarrow> string \<Rightarrow> string \<Rightarrow> (string \<times> string) list" where
  "reply_data form formkey message_id body =
     (let data0 = [(''formkey'', formkey)];
          data1 = (case form of None \<Rightarrow> data0 | Some f \<Rightarrow> add_hidden (hidden_inputs f) data0);
          body_field = (case form of
                          None \<Rightarrow> ''body''
                        | Some f \<Rightarrow>
                            (case textarea f of
                               None \<Rightarrow> ''body''
                             | Some None \<Rightarrow> ''body''
                             | Some (Some n) \<Rightarrow> n));
          data2 = AList.update body_field body data1
      in if map_of data2 ''answer'' = None \<and> map_of data2 ''replyto'' = None
         then AList.update ''answer'' message_id data2
         else data2)"

definition reply_post_url :: "form_tag option \<Rightarrow> string" where
  "reply_post_url form =
     (case form of
        None \<Rightarrow> ''/messages/compose''
      | Some f \<Rightarrow>
          (case action f of
             None \<Rightarrow> ''/messages/compose''
           | Some a \<Rightarrow> if prefix ''/'' a then a else ''/messages/compose''))"

definition reply_to_message ::
  "pylib \<Rightarrow> net \<Rightarrow> client \<Rightarrow> string \<Rightarrow> string \<Rightarrow> (error + bool) \<times> client" where
  "reply_to_message L net c message_id body =
     (case request L net c ''GET'' (''/messages/compose?answer='' @ message_id) None of
        (Inl e, c1) \<Rightarrow> (Inl e, c1)
      | (Inr compose_response, c1) \<Rightarrow>
          (case formkey_match (text compose_response) of
             None \<Rightarrow>
               (Inl (WilmaAPIError ''Could not extract formkey from reply compose form''), c1)
           | Some formkey \<Rightarrow>
               (let form = soup_form L (text compose_response);
                    data = map (\<lambda>(k, v). (k, JStr v)) (reply_data form formkey message_id body)
                in case request L net c1 ''POST'' (reply_post_url form) (Some data) of
                     (Inl e, c2) \<Rightarrow> (Inl e, c2)
                   | (Inr r, c2) \<Rightarrow>
                       (judge_response ''Failed to send reply - server returned an error'' r,
                        c2))))"


section \<open>The user prefix, as the specification words it\<close>

text \<open>
  The specification describes the user prefix as ``a slash, \<open>!\<close>, then digits'', searched in
  the final URL and then in an \<open>href\<close> attribute of the body.  \<open>spec_prefix_occurs lead p s\<close>:
  the text \<open>s\<close> contains \<open>lead\<close> followed by \<open>p\<close>, where \<open>p\<close> is \<open>/!\<close> and a non-empty run of digits
  that the next character does not continue.  \<open>spec_has_prefix lead s\<close>: the text contains
  \<open>lead\<close>, \<open>/!\<close> and a digit at all.  These two are compared with the searches of \<open>login\<close>.
\<close>

definition spec_prefix_occurs :: "string \<Rightarrow> string \<Rightarrow> string \<Rightarrow> bool" where
  "spec_prefix_occurs lead p s =
     (\<exists>pre ds rest. s = pre @ lead @ ''/!'' @ ds @ rest \<and> p = ''/!'' @ ds \<and> ds \<noteq> []
        \<and> list_all is_digit ds \<and> (case rest of [] \<Rightarrow> True | c # cs \<Rightarrow> \<not> is_digit c))"

definition spec_has_prefix :: "string \<Rightarrow> string \<Rightarrow> bool" where
  "spec_has_prefix lead s = (\<exists>pre d rest. s = pre @ lead @ ''/!'' @ d # rest \<and> is_digit d)"

section \<open>The kinds of failure\<close>




section \<open>Example inputs\<close>

text \<open>A document whose event records hold nested arrays, followed by another array.\<close>

definition nested_html :: string where
  "nested_html = ''<script>x = {Events : [{\"a\":[1,[2]]},{\"b\":[]}], n: [7]}</script>''"

definition scenario_event :: json where
  "scenario_event =
     JObj [(''Date'', JStr ''08.02.2026''), (''Start'', JInt 510), (''End'', JInt 555),
           (''Text'', JObj [(''0'', JStr ''Math'')]),
           (''Opet'', JObj [(''0'', JStr ''O: J. Doe'')])]"

definition week_events_text :: string where
  "week_events_text = ''[{\"Date\":\"08.02.2026\",\"Start\":600,\"End\":645},{\"Date\":\"09.02.2026\",\"Start\":480,\"End\":525},{\"Date\":\"08.02.2026\",\"Start\":510,\"End\":555}]''"

definition week_html :: string where
  "week_html = ''var eventsJSON = {DayCount : 5, Events : '' @ week_events_text @ ''};''"

definition week_events :: json where
  "week_events = JArr
     [JObj [(''Date'', JStr ''08.02.2026''), (''Start'', JInt 600), (''End'', JInt 645)],
      JObj [(''Date'', JStr ''09.02.2026''), (''Start'', JInt 480), (''End'', JInt 525)],
      JObj [(''Date'', JStr ''08.02.2026''), (''Start'', JInt 510), (''End'', JInt 555)]]"

definition feb8 :: py_date where
  "feb8 = \<lparr>year = 2026, month = 2, day = 8\<rparr>"

definition feb8_schedule :: DaySchedule where
  "feb8_schedule = \<lparr>date = feb8, lessons =
     [\<lparr>start_time = ''08:30'', end_time = ''09:15'', subject = JStr [], teacher = JStr [],
       room = JNull, groups = [], notes = JStr []\<rparr>,
      \<lparr>start_time = ''10:00'', end_time = ''10:45'', subject = JStr [], teacher = JStr [],
       room = JNull, groups = [], notes = JStr []\<rparr>]\<rparr>"

text \<open>A portal that accepts the credentials and answers every other request with a
  redirect to its login page.\<close>

text \<open>An array whose second event has a text where the minutes should be.\<close>

definition bad_start_text :: string where
  "bad_start_text = ''[{\"Date\":\"08.02.2026\",\"Start\":510,\"End\":555},{\"Date\":\"08.02.2026\",\"Start\":\"x\"}]''"

definition bad_start_html :: string where
  "bad_start_html = ''Events : '' @ bad_start_text"

definition bad_start_events :: json where
  "bad_start_events = JArr
     [JObj [(''Date'', JStr ''08.02.2026''), (''Start'', JInt 510), (''End'', JInt 555)],
      JObj [(''Date'', JStr ''08.02.2026''), (''Start'', JStr ''x'')]]"

definition messages_text :: string where
  "messages_text = ''{\"Messages\":[{\"Id\":7,\"Subject\":\"Hi\",\"Sender\":\"Admin\",\"TimeStamp\":\"2026-02-08 11:42\",\"Status\":0},{\"Id\":8,\"Subject\":\"Re\",\"Sender\":\"Me\",\"TimeStamp\":\"2026-02-08 11:42\",\"Status\":1,\"Folder\":\"archive\"}]}''"

definition messages_data :: json where
  "messages_data = JObj [(''Messages'', JArr
     [JObj [(''Id'', JInt 7), (''Subject'', JStr ''Hi''), (''Sender'', JStr ''Admin''),
            (''TimeStamp'', JStr ''2026-02-08 11:42''), (''Status'', JInt 0)],
      JObj [(''Id'', JInt 8), (''Subject'', JStr ''Re''), (''Sender'', JStr ''Me''),
            (''TimeStamp'', JStr ''2026-02-08 11:42''), (''Status'', JInt 1),
            (''Folder'', JStr ''archive'')]])]"

definition feb8_1142 :: datetime where
  "feb8_1142 = \<lparr>year = 2026, month = 2, day = 8, hour = 11, minute = 42, second = 0\<rparr>"

text \<open>A reply compose form, and what BeautifulSoup finds in it.\<close>

definition compose_html :: string where
  "compose_html = ''<form action=\"/!0411876/messages/compose\" method=\"post\"><input type=\"hidden\" name=\"formkey\" value=\"k1\"><input type=\"hidden\" name=\"rcpt\" value=\"42\"><textarea name=\"bodytext\"></textarea></form>''"

definition compose_form :: form_tag where
  "compose_form = \<lparr>hidden_inputs = [(Some ''formkey'', Some ''k1''), (Some ''rcpt'', Some ''42'')],
                    textarea = Some (Some ''bodytext''),
                    action = Some ''/!0411876/messages/compose''\<rparr>"

text \<open>The library functions on the texts and values of the examples: \<open>json.loads\<close> decodes the
  four JSON texts above and the text \<open>[1]\<close>, and refuses every other text, \<open>str\<close> of a string or of a
  non-negative \<open>int\<close>, \<open>strptime\<close> of the timestamp of the message list in two spellings,
  and the form of the compose page.\<close>

definition example_lib :: pylib where
  "example_lib =
     \<lparr>json_loads = (\<lambda>s. if s = ''{\"SessionID\":\"abc\"}''
                          then Inr (JObj [(''SessionID'', JStr ''abc'')])
                          else if s = week_events_text then Inr week_events
                          else if s = messages_text then Inr messages_data
                          else if s = bad_start_text then Inr bad_start_events
                          else if s = ''[1]'' then Inr (JArr [JInt 1])
                          else Inl JSONDecodeError),
      py_str = (\<lambda>v. case v of JStr s \<Rightarrow> s | JInt n \<Rightarrow> dec_nat (nat n) | _ \<Rightarrow> []),
      strptime = (\<lambda>s f. if s = ''2026-02-08 11:42'' \<and> f = ''%Y-%m-%d %H:%M''
                           \<or> s = ''8.2.2026 11:42'' \<and> f = ''%d.%m.%Y %H:%M''
                        then Some feb8_1142 else None),
      soup_form = (\<lambda>h. if h = compose_html then Some compose_form else None)\<rparr>"

definition fresh_client :: client where
  "fresh_client = \<lparr>username = ''u'', password = ''p'', session_id = None,
                    user_prefix = None, sent = []\<rparr>"

definition index_reply :: outcome where
  "index_reply = Reply \<lparr>url = ''https://w.example/index_json'',
                         text = ''{\"SessionID\":\"abc\"}'', status_code = 200\<rparr> None"

definition login_reply :: outcome where
  "login_reply = Reply \<lparr>url = ''https://w.example/!0411876/'', text = ''<html>'',
                         status_code = 200\<rparr> (Some ''xyz'')"

definition expired_reply :: outcome where
  "expired_reply = Reply \<lparr>url = ''https://w.example/login?sessionexpired'', text = ''Login'',
                           status_code = 200\<rparr> (Some ''xyz'')"

definition expiring_net :: net where
  "expiring_net n rq =
     (if path rq = ''/index_json'' then index_reply
      else if path rq = ''/login'' then login_reply
      else expired_reply)"

definition logged_in_client :: client where
  "logged_in_client = \<lparr>username = ''u'', password = ''p'', session_id = Some ''xyz'',
     user_prefix = Some ''/!0411876'',
     sent = [index_request, login_request fresh_client (JStr ''abc'')]\<rparr>"

definition expired_response :: response where
  "expired_response = \<lparr>url = ''https://w.example/login?sessionexpired'', text = ''Login'',
                        status_code = 200\<rparr>"

text \<open>A portal that accepts the credentials, serves the message list and the compose form,
  and answers a POST with a page whose URL and body say nothing about the result.\<close>

definition portal_net :: net where
  "portal_net n rq =
     (if path rq = ''/index_json'' then index_reply
      else if path rq = ''/login'' then login_reply
      else if path rq = ''/!0411876/messages/list/index_json''
      then Reply \<lparr>url = ''https://w.example/!0411876/messages/list/index_json'',
                  text = messages_text, status_code = 200\<rparr> (Some ''xyz'')
      else if meth rq = ''GET''
      then Reply \<lparr>url = ''https://w.example'' @ path rq, text = compose_html,
                  status_code = 200\<rparr> (Some ''xyz'')
      else Reply \<lparr>url = ''https://w.example/!0411876/frontpage'', text = ''<html>OK</html>'',
                  status_code = 200\<rparr> (Some ''xyz''))"

text \<open>A portal that accepts the credentials and answers every other request with a
  maintenance page.\<close>

definition maintenance_net :: net where
  "maintenance_net n rq =
     (if path rq = ''/index_json'' then index_reply
      else if path rq = ''/login'' then login_reply
      else Reply \<lparr>url = ''https://w.example/!0411876/maintenance'',
                  text = ''<html>maintenance</html>'', status_code = 200\<rparr> (Some ''xyz''))"

text \<open>Two readings of the clock.\<close>

definition clock1 :: datetime where
  "clock1 = \<lparr>year = 2026, month = 11, day = 4, hour = 9, minute = 0, second = 0\<rparr>"

definition clock2 :: datetime where
  "clock2 = \<lparr>year = 2026, month = 11, day = 4, hour = 9, minute = 1, second = 0\<rparr>"


definition maintenance_page :: response where
  "maintenance_page = \<lparr>url = ''https://w.example/!0411876/maintenance'',
                        text = ''<html>maintenance</html>'', status_code = 200\<rparr>"





section \<open>Properties of the extractor\<close>

lemma depth_Nil [simp]: "depth [] = 0"
  by (simp add: depth_def)

lemma depth_Cons:
  "depth (c # cs) =
     (if c = CHR ''['' then 1 else if c = CHR '']'' then - 1 else 0) + depth cs"
  by (simp add: depth_def)

lemma find_aux_Some:
  "find_aux sub cs i = Some j \<Longrightarrow>
     i \<le> j \<and> j - i \<le> length cs \<and> prefix sub (drop (j - i) cs)
     \<and> (\<forall>k < j - i. \<not> prefix sub (drop k cs))"
proof (induction cs arbitrary: i)
  case Nil
  then show ?case by (simp split: if_splits)
next
  case (Cons c cs)
  show ?case
  proof (cases "prefix sub (c # cs)")
    case True
    with Cons.prems show ?thesis by simp
  next
    case False
    with Cons.prems have rec: "find_aux sub cs (Suc i) = Some j" by simp
    from Cons.IH [OF rec] have ih:
      "Suc i \<le> j" "j - Suc i \<le> length cs" "prefix sub (drop (j - Suc i) cs)"
      "\<forall>k < j - Suc i. \<not> prefix sub (drop k cs)" by auto
    from ih(1) have eq: "j - i = Suc (j - Suc i)" by simp
    have "\<forall>k < j - i. \<not> prefix sub (drop k (c # cs))"
    proof (intro allI impI)
      fix k assume k: "k < j - i"
      show "\<not> prefix sub (drop k (c # cs))"
      proof (cases k)
        case 0
        with False show ?thesis by simp
      next
        case (Suc k')
        with k eq have "k' < j - Suc i" by simp
        with ih(4) Suc show ?thesis by simp
      qed
    qed
    with ih eq show ?thesis by simp
  qed
qed

lemma find_aux_None:
  "find_aux sub cs i = None \<Longrightarrow> k \<le> length cs \<Longrightarrow> \<not> prefix sub (drop k cs)"
proof (induction cs arbitrary: i k)
  case Nil
  then show ?case by (simp split: if_splits)
next
  case (Cons c cs)
  from Cons.prems(1) have np: "\<not> prefix sub (c # cs)"
    and rec: "find_aux sub cs (Suc i) = None"
    by (simp_all split: if_splits)
  show ?case
  proof (cases k)
    case 0
    with np show ?thesis by simp
  next
    case (Suc k')
    with Cons.prems(2) have "k' \<le> length cs" by simp
    from Cons.IH [OF rec this] Suc show ?thesis by simp
  qed
qed

lemma str_find_Some:
  assumes "str_find s sub start = Some j"
  shows "start \<le> j" and "j \<le> length s" and "prefix sub (drop j s)"
    and "\<And>k. start \<le> k \<Longrightarrow> k < j \<Longrightarrow> \<not> prefix sub (drop k s)"
proof -
  from assms have le: "start \<le> length s"
    and f: "find_aux sub (drop start s) start = Some j"
    by (simp_all add: str_find_def split: if_splits)
  from find_aux_Some [OF f] have a: "start \<le> j"
    and b: "j - start \<le> length (drop start s)"
    and c: "prefix sub (drop (j - start) (drop start s))"
    and d: "\<forall>k < j - start. \<not> prefix sub (drop k (drop start s))" by auto
  show "start \<le> j" by (rule a)
  from a b le show "j \<le> length s" by simp
  from a c show "prefix sub (drop j s)" by simp
  fix k assume k: "start \<le> k" "k < j"
  then have "k - start < j - start" by simp
  with d have "\<not> prefix sub (drop (k - start) (drop start s))" by blast
  with k show "\<not> prefix sub (drop k s)" by simp
qed

text \<open>The scan, started inside the array (\<open>bracket_count \<ge> 1\<close>), stops exactly where the
  count first reaches zero.\<close>

lemma scan_brackets_Some:
  "1 \<le> n \<Longrightarrow> scan_brackets cs i n = Some e \<Longrightarrow>
     \<exists>k. e = i + k \<and> 0 < k \<and> k \<le> length cs \<and> n + depth (take k cs) = 0
       \<and> (\<forall>m < k. 0 < n + depth (take m cs))"
proof (induction cs arbitrary: i n)
  case Nil
  then show ?case by simp
next
  case (Cons c cs)
  consider (stop) "c = CHR '']''" "n = 1"
    | (go) n' where "1 \<le> n'" "scan_brackets cs (Suc i) n' = Some e"
        "n' = n + depth [c]"
    using Cons.prems by (auto simp: depth_Cons split: if_splits)
  then show ?case
  proof cases
    case stop
    with Cons.prems have "e = Suc i" by simp
    moreover have "n + depth (take 1 (c # cs)) = 0"
      using stop by (simp add: depth_Cons)
    moreover have "\<forall>m < (1::nat). 0 < n + depth (take m (c # cs))"
      using stop by simp
    ultimately show ?thesis
      by (intro exI [of _ 1]) simp
  next
    case go
    from Cons.IH [OF go(1) go(2)] obtain k where k:
      "e = Suc i + k" "0 < k" "k \<le> length cs" "n' + depth (take k cs) = 0"
      "\<forall>m < k. 0 < n' + depth (take m cs)" by blast
    have step: "\<And>m. n + depth (take (Suc m) (c # cs)) = n' + depth (take m cs)"
      using go(3) by (simp add: depth_Cons)
    have "\<forall>m < Suc k. 0 < n + depth (take m (c # cs))"
    proof (intro allI impI)
      fix m assume m: "m < Suc k"
      show "0 < n + depth (take m (c # cs))"
      proof (cases m)
        case 0
        with Cons.prems(1) show ?thesis by simp
      next
        case (Suc m')
        with m have "m' < k" by simp
        with k(5) have "0 < n' + depth (take m' cs)" by blast
        with step [of m'] Suc show ?thesis by simp
      qed
    qed
    moreover have "n + depth (take (Suc k) (c # cs)) = 0"
      using step [of k] k(4) by simp
    ultimately show ?thesis using k(1,3)
      by (intro exI [of _ "Suc k"]) simp
  qed
qed

lemma scan_brackets_finds:
  "1 \<le> n \<Longrightarrow> k \<le> length cs \<Longrightarrow> n + depth (take k cs) \<le> 0 \<Longrightarrow>
     scan_brackets cs i n \<noteq> None"
proof (induction cs arbitrary: i n k)
  case Nil
  then show ?case by simp
next
  case (Cons c cs)
  from Cons.prems obtain k' where k': "k = Suc k'"
    by (cases k) auto
  with Cons.prems have len: "k' \<le> length cs"
    and dep: "n + depth [c] + depth (take k' cs) \<le> 0"
    by (simp_all add: depth_Cons)
  show ?case
  proof (cases "c = CHR '']'' \<and> n = 1")
    case True
    then show ?thesis by simp
  next
    case False
    with Cons.prems(1) have pos: "1 \<le> n + depth [c]"
      by (auto simp: depth_Cons)
    from Cons.IH [OF pos len dep, of "Suc i"] False show ?thesis
      by (auto simp: depth_Cons)
  qed
qed

lemma depth_append: "depth (xs @ ys) = depth xs + depth ys"
  by (simp add: depth_def)

lemma str_find_None:
  assumes "str_find s sub start = None" and "start \<le> k" and "k \<le> length s"
  shows "\<not> prefix sub (drop k s)"
proof -
  from assms have f: "find_aux sub (drop start s) start = None"
    by (simp add: str_find_def split: if_splits)
  from assms have "k - start \<le> length (drop start s)" by simp
  from find_aux_None [OF f this] assms(2) show ?thesis by simp
qed

lemma events_start_Some_iff:
  "events_start html \<noteq> None \<longleftrightarrow>
     str_in ''Events : ['' html \<or> str_in ''Events: ['' html"
  by (auto simp: events_start_def str_in_def split: option.splits)

lemma events_start_marker:
  assumes "events_start html = Some s"
  shows "prefix ''Events : ['' (drop s html) \<or> prefix ''Events: ['' (drop s html)"
  using assms str_find_Some(3)
  by (fastforce simp: events_start_def split: option.splits)

lemma prefix_bracket_nth:
  "prefix ''['' (drop a s) \<longleftrightarrow> a < length s \<and> s ! a = CHR ''[''"
proof (cases "a < length s")
  case True
  then have "drop a s = s ! a # drop (Suc a) s"
    by (simp add: Cons_nth_drop_Suc)
  with True show ?thesis by auto
next
  case False
  then show ?thesis by simp
qed

lemma array_start_first_bracket:
  assumes "array_start html = Some a"
  shows "\<exists>s. events_start html = Some s \<and> s \<le> a \<and> a < length html
           \<and> html ! a = CHR ''['' \<and> (\<forall>j. s \<le> j \<and> j < a \<longrightarrow> html ! j \<noteq> CHR ''['')"
proof -
  from assms obtain s where s: "events_start html = Some s"
    and f: "str_find html ''['' s = Some a"
    by (auto simp: array_start_def split: option.splits)
  from str_find_Some(3) [OF f] have "a < length html" "html ! a = CHR ''[''"
    by (simp_all add: prefix_bracket_nth)
  moreover have "\<forall>j. s \<le> j \<and> j < a \<longrightarrow> html ! j \<noteq> CHR ''[''"
  proof (intro allI impI)
    fix j assume j: "s \<le> j \<and> j < a"
    with str_find_Some(4) [OF f, of j] have "\<not> prefix ''['' (drop j html)" by simp
    moreover from j \<open>a < length html\<close> have "j < length html" by simp
    ultimately show "html ! j \<noteq> CHR ''[''" by (simp add: prefix_bracket_nth)
  qed
  ultimately show ?thesis using s str_find_Some(1) [OF f] by blast
qed

lemma marker_bracket_offset:
  assumes "prefix (m @ ''['') (drop s html)"
  shows "s + length m < length html \<and> html ! (s + length m) = CHR ''[''"
proof -
  from assms obtain r where r: "drop s html = m @ ''['' @ r"
    by (auto elim: prefixE)
  then have "drop (length m) (drop s html) = ''['' @ r" by simp
  then have "drop (s + length m) html = CHR ''['' # r" by (simp add: add.commute)
  then have "prefix ''['' (drop (s + length m) html)" by simp
  then show ?thesis by (simp only: prefix_bracket_nth)
qed

lemma marker_has_bracket:
  assumes "events_start html = Some s"
  shows "array_start html \<noteq> None"
proof
  assume "array_start html = None"
  with assms have none: "str_find html ''['' s = None"
    by (simp add: array_start_def)
  from events_start_marker [OF assms]
  obtain m :: string where "prefix (m @ ''['') (drop s html)"
  proof
    assume "prefix ''Events : ['' (drop s html)"
    then have "prefix (''Events : '' @ ''['') (drop s html)" by simp
    then show ?thesis by (rule that)
  next
    assume "prefix ''Events: ['' (drop s html)"
    then have "prefix (''Events: '' @ ''['') (drop s html)" by simp
    then show ?thesis by (rule that)
  qed
  from marker_bracket_offset [OF this]
  have k: "s + length m < length html" "html ! (s + length m) = CHR ''[''" by auto
  then have "prefix ''['' (drop (s + length m) html)"
    by (simp only: prefix_bracket_nth)
  moreover from k have "\<not> prefix ''['' (drop (s + length m) html)"
    by (intro str_find_None [OF none]) simp_all
  ultimately show False by contradiction
qed

lemma scan_from_open:
  assumes a: "a < length html" "html ! a = CHR ''[''"
    and bal: "0 < k" "k \<le> length html - a" "depth (take k (drop a html)) = 0"
  shows "\<exists>e. scan_brackets (drop a html) a 0 = Some e \<and> a < e \<and> e \<le> length html
          \<and> html ! (e - 1) = CHR '']''
          \<and> depth (take (e - a) (drop a html)) = 0
          \<and> (\<forall>m. 0 < m \<and> m < e - a \<longrightarrow> 0 < depth (take m (drop a html)))"
proof -
  define cs where "cs = drop (Suc a) html"
  from a have dr: "drop a html = CHR ''['' # cs"
    using Cons_nth_drop_Suc [of a html] by (simp add: cs_def)
  have first: "scan_brackets (drop a html) a 0 = scan_brackets cs (Suc a) 1"
    by (simp add: dr)
  from bal(1) obtain k' where k': "k = Suc k'" by (cases k) auto
  with bal dr have "k' \<le> length cs" "1 + depth (take k' cs) \<le> 0"
    by (simp_all add: depth_Cons cs_def)
  from scan_brackets_finds [OF _ this, of "Suc a"]
  obtain e where e: "scan_brackets cs (Suc a) 1 = Some e" by auto
  from scan_brackets_Some [OF _ e] obtain j where j:
    "e = Suc a + j" "0 < j" "j \<le> length cs" "1 + depth (take j cs) = 0"
    "\<forall>m < j. 0 < 1 + depth (take m cs)" by auto
  have ea: "e - a = Suc j" using j(1) by simp
  have len: "e \<le> length html" using j(1,3) a(1) by (simp add: cs_def)
  have d0: "depth (take (e - a) (drop a html)) = 0"
    using j(4) by (simp add: ea dr depth_Cons)
  have pos: "\<forall>m. 0 < m \<and> m < e - a \<longrightarrow> 0 < depth (take m (drop a html))"
  proof (intro allI impI)
    fix m assume m: "0 < m \<and> m < e - a"
    then obtain m' where m': "m = Suc m'" by (cases m) auto
    with m ea have "m' < j" by simp
    with j(5) have "0 < 1 + depth (take m' cs)" by blast
    then show "0 < depth (take m (drop a html))"
      by (simp add: m' dr depth_Cons)
  qed
  have last: "html ! (e - 1) = CHR '']''"
  proof -
    from j(2) obtain j' where j': "j = Suc j'" by (cases j) auto
    with j(3) have lt: "j' < length cs" by simp
    then have tk: "take j cs = take j' cs @ [cs ! j']"
      by (simp add: j' take_Suc_conv_app_nth)
    from j(5) j' have "0 < 1 + depth (take j' cs)" by simp
    with j(4) tk have "depth [cs ! j'] < 0"
      by (simp add: depth_append)
    then have "cs ! j' = CHR '']''"
      by (simp add: depth_Cons split: if_splits)
    moreover have "cs ! j' = html ! (e - 1)"
      using j(1) j' lt a(1) by (simp add: cs_def)
    ultimately show ?thesis by simp
  qed
  from first e j(1) len last d0 pos show ?thesis by simp
qed

text \<open>
  Claim C1.  When one of the two spellings of the marker occurs in the document and the
  brackets from the first \<open>[\<close> at or after the marker are balanced (some non-empty prefix of
  the text from that bracket on has nesting depth zero), the extractor selects the text
  from that bracket up to and including its matching \<open>]\<close>: the selected text starts at the
  first \<open>[\<close> from the marker on, ends with \<open>]\<close>, has depth zero, and every shorter non-empty
  prefix of it has positive depth, however deep the nesting inside.
\<close>

theorem events_str_matching_bracket:
  assumes marker: "str_in ''Events : ['' html \<or> str_in ''Events: ['' html"
    and balanced: "\<And>a. array_start html = Some a \<Longrightarrow>
        \<exists>k. 0 < k \<and> k \<le> length html - a \<and> depth (take k (drop a html)) = 0"
  shows "\<exists>s a e. events_start html = Some s
      \<and> (prefix ''Events : ['' (drop s html) \<or> prefix ''Events: ['' (drop s html))
      \<and> s \<le> a \<and> html ! a = CHR ''[''
      \<and> (\<forall>j. s \<le> j \<and> j < a \<longrightarrow> html ! j \<noteq> CHR ''['')
      \<and> a < e \<and> e \<le> length html \<and> html ! (e - 1) = CHR '']''
      \<and> depth (take (e - a) (drop a html)) = 0
      \<and> (\<forall>m. 0 < m \<and> m < e - a \<longrightarrow> 0 < depth (take m (drop a html)))
      \<and> events_str html = Some (take (e - a) (drop a html))"
proof -
  from marker obtain s where s: "events_start html = Some s"
    using events_start_Some_iff [of html] by auto
  from marker_has_bracket [OF s] obtain a where a: "array_start html = Some a"
    by auto
  from array_start_first_bracket [OF a] s have fb: "s \<le> a" "a < length html"
    "html ! a = CHR ''[''" "\<forall>j. s \<le> j \<and> j < a \<longrightarrow> html ! j \<noteq> CHR ''[''"
    by auto
  from balanced [OF a] obtain k where k: "0 < k" "k \<le> length html - a"
    "depth (take k (drop a html)) = 0" by auto
  from scan_from_open [OF fb(2,3) k] obtain e where e:
    "scan_brackets (drop a html) a 0 = Some e" "a < e" "e \<le> length html"
    "html ! (e - 1) = CHR '']''" "depth (take (e - a) (drop a html)) = 0"
    "\<forall>m. 0 < m \<and> m < e - a \<longrightarrow> 0 < depth (take m (drop a html))" by auto
  have "events_str html = Some (take (e - a) (drop a html))"
    using a e(1) by (simp add: events_str_def array_end_def)
  with s events_start_marker [OF s] fb e show ?thesis by blast
qed

theorem events_str_matching_bracket_witness:
  "\<exists>s a e. events_start nested_html = Some s
      \<and> (prefix ''Events : ['' (drop s nested_html) \<or> prefix ''Events: ['' (drop s nested_html))
      \<and> s \<le> a \<and> nested_html ! a = CHR ''[''
      \<and> (\<forall>j. s \<le> j \<and> j < a \<longrightarrow> nested_html ! j \<noteq> CHR ''['')
      \<and> a < e \<and> e \<le> length nested_html \<and> nested_html ! (e - 1) = CHR '']''
      \<and> depth (take (e - a) (drop a nested_html)) = 0
      \<and> (\<forall>m. 0 < m \<and> m < e - a \<longrightarrow> 0 < depth (take m (drop a nested_html)))
      \<and> events_str nested_html = Some (take (e - a) (drop a nested_html))"
proof -
  have marker: "str_in ''Events : ['' nested_html \<or> str_in ''Events: ['' nested_html"
    by code_simp
  have start: "array_start nested_html = Some 22"
    by code_simp
  have bal: "\<exists>k. 0 < k \<and> k \<le> length nested_html - a
                \<and> depth (take k (drop a nested_html)) = 0"
    if "array_start nested_html = Some a" for a
  proof -
    from that start have a: "a = 22" by simp
    have "0 < (25::nat) \<and> 25 \<le> length nested_html - 22
            \<and> depth (take 25 (drop 22 nested_html)) = 0"
      by code_simp
    with a show ?thesis by blast
  qed
  show ?thesis
    by (rule events_str_matching_bracket [OF marker bal])
qed

lemma events_str_nested_html:
  "events_str nested_html = Some ''[{\"a\":[1,[2]]},{\"b\":[]}]''"
  by code_simp

section \<open>Properties of the schedule parser\<close>

lemma dec_nat_digit: "n < 10 \<Longrightarrow> dec_nat n = [digit_char n]"
  by (subst dec_nat.simps) simp

lemma dec_nat_two: "10 \<le> n \<Longrightarrow> n < 100 \<Longrightarrow> dec_nat n = [digit_char (n div 10), digit_char (n mod 10)]"
  by (subst dec_nat.simps) (simp add: dec_nat_digit)

lemma fmt_02d_two_digits:
  assumes "0 \<le> n" "n < 100"
  shows "fmt_02d n = [digit_char (nat (n div 10)), digit_char (nat (n mod 10))]"
proof (cases "n < 10")
  case True
  with assms show ?thesis
    by (simp add: fmt_02d_def dec_nat_digit digit_char_def)
next
  case False
  with assms have "10 \<le> nat n" "nat n < 100" by simp_all
  from dec_nat_two [OF this] False assms show ?thesis
    by (simp add: fmt_02d_def nat_div_distrib nat_mod_distrib)
qed

lemma fmt_hhmm_minutes:
  assumes "0 \<le> m" "m < 1440"
  shows "fmt_hhmm (JInt m) =
    Inr [digit_char (nat (m div 60 div 10)), digit_char (nat (m div 60 mod 10)), CHR '':'',
         digit_char (nat (m mod 60 div 10)), digit_char (nat (m mod 60 mod 10))]"
proof -
  from assms have "0 \<le> m div 60" "m div 60 < 100" by simp_all
  from fmt_02d_two_digits [OF this] 
  have h: "fmt_02d (m div 60) = [digit_char (nat (m div 60 div 10)), digit_char (nat (m div 60 mod 10))]" .
  have "0 \<le> m mod 60" "m mod 60 < 100" by simp_all
  from fmt_02d_two_digits [OF this]
  have mi: "fmt_02d (m mod 60) = [digit_char (nat (m mod 60 div 10)), digit_char (nat (m mod 60 mod 10))]" .
  show ?thesis by (simp add: h mi)
qed

text \<open>
  Claim C5.  An event record of the requested date whose \<open>Start\<close> and \<open>End\<close> are integer
  minutes since midnight, and whose \<open>Text\<close>, \<open>Opet\<close> and \<open>LongText\<close> are dictionaries (or
  absent), becomes a lesson with the two times as zero-padded \<open>HH:MM\<close> texts (tens and units
  of the hour, a colon, tens and units of the minute), the subject from key \<open>"0"\<close> of \<open>Text\<close>,
  the teacher from key \<open>"0"\<close> of \<open>Opet\<close> without its leading \<open>O:\<close> and the white space after
  it (any run of it, also a no-break space), and the notes from key \<open>"0"\<close> of \<open>LongText\<close>; a missing key \<open>"0"\<close> gives the empty text.
  The witness is the record of the scenario: 510 gives \<open>08:30\<close>, 555 gives \<open>09:15\<close>, and
  \<open>O: J. Doe\<close> gives \<open>J. Doe\<close>.
\<close>

theorem event_record_to_lesson:
  assumes date: "dict_get event ''Date'' (JStr []) = Inr (JStr target)"
    and start: "dict_get event ''Start'' (JInt 0) = Inr (JInt s)" "0 \<le> s" "s < 1440"
    and end_m: "dict_get event ''End'' (JInt 0) = Inr (JInt e)" "0 \<le> e" "e < 1440"
    and text_d: "dict_get event ''Text'' (JObj []) = Inr (JObj tx)"
    and opet: "dict_get event ''Opet'' (JObj []) = Inr (JObj op)"
      "(case map_of op ''0'' of Some v \<Rightarrow> v | None \<Rightarrow> JStr []) = JStr tch"
    and long: "dict_get event ''LongText'' (JObj []) = Inr (JObj lt)"
  shows "event_to_lesson L target event = Inr (Some
     \<lparr>start_time = [digit_char (nat (s div 60 div 10)), digit_char (nat (s div 60 mod 10)), CHR '':'',
                    digit_char (nat (s mod 60 div 10)), digit_char (nat (s mod 60 mod 10))],
      end_time = [digit_char (nat (e div 60 div 10)), digit_char (nat (e div 60 mod 10)), CHR '':'',
                  digit_char (nat (e mod 60 div 10)), digit_char (nat (e mod 60 mod 10))],
      subject = (case map_of tx ''0'' of Some v \<Rightarrow> v | None \<Rightarrow> JStr []),
      teacher = JStr (if prefix ''O:'' tch then dropWhile is_space (drop 2 tch) else tch),
      room = JNull, groups = [],
      notes = (case map_of lt ''0'' of Some v \<Rightarrow> v | None \<Rightarrow> JStr [])\<rparr>)"
proof -
  have t: "clean_teacher (JStr tch) =
      Inr (JStr (if prefix ''O:'' tch then dropWhile is_space (drop 2 tch) else tch))"
    by (cases "tch = []") (simp_all add: clean_teacher_def re_sub_O_def)
  have hs: "fmt_hhmm (JInt s) = Inr [digit_char (nat (s div 60 div 10)),
      digit_char (nat (s div 60 mod 10)), CHR '':'',
      digit_char (nat (s mod 60 div 10)), digit_char (nat (s mod 60 mod 10))]"
    by (rule fmt_hhmm_minutes [OF start(2,3)])
  have he: "fmt_hhmm (JInt e) = Inr [digit_char (nat (e div 60 div 10)),
      digit_char (nat (e div 60 mod 10)), CHR '':'',
      digit_char (nat (e mod 60 div 10)), digit_char (nat (e mod 60 mod 10))]"
    by (rule fmt_hhmm_minutes [OF end_m(2,3)])
  show ?thesis
    unfolding event_to_lesson_def date start(1) end_m(1) text_d opet(1) long
    by (simp add: hs he opet(2) t del: fmt_hhmm.simps)
qed

lemma event_to_lesson_date:
  assumes "event_to_lesson L t ev = Inr (Some l)"
  shows "dict_get ev ''Date'' (JStr []) = Inr (JStr t)"
  using assms unfolding event_to_lesson_def
  by (cases "dict_get ev ''Date'' (JStr [])") (simp_all split: if_splits)

lemma events_loop_lessons:
  "events_loop L t evs acc = (ls, x) \<Longrightarrow> l \<in> set ls \<Longrightarrow>
     l \<in> set acc \<or> (\<exists>ev \<in> set evs. event_to_lesson L t ev = Inr (Some l))"
proof (induction evs arbitrary: acc)
  case Nil
  then show ?case by simp
next
  case (Cons ev evs)
  show ?case
  proof (cases "event_to_lesson L t ev")
    case (Inl e)
    with Cons.prems show ?thesis by simp
  next
    case (Inr r)
    show ?thesis
    proof (cases r)
      case None
      with Inr Cons.prems have "events_loop L t evs acc = (ls, x)" by simp
      from Cons.IH [OF this Cons.prems(2)] show ?thesis by auto
    next
      case (Some l')
      with Inr Cons.prems have "events_loop L t evs (acc @ [l']) = (ls, x)" by simp
      from Cons.IH [OF this Cons.prems(2)] Inr Some show ?thesis by auto
    qed
  qed
qed

lemma try_events_lessons:
  assumes "try_events L events_text t = (ls, x)" and "l \<in> set ls"
  shows "\<exists>events evs ev. json_loads L events_text = Inr events \<and> py_iter events = Some evs
     \<and> ev \<in> set evs \<and> event_to_lesson L t ev = Inr (Some l)"
proof -
  from assms obtain events evs where ev: "json_loads L events_text = Inr events"
    "py_iter events = Some evs" "events_loop L t evs [] = (ls, x)"
    by (auto simp: try_events_def split: sum.splits option.splits)
  from events_loop_lessons [OF ev(3) assms(2)] ev(1,2) show ?thesis by auto
qed

lemma parse_schedule_cases:
  assumes "parse_schedule_from_html L html td = Inr ds"
  shows "ds = \<lparr>date = td, lessons = []\<rparr> \<or>
    (\<exists>events_text ls x. events_str html = Some events_text \<and> try_events L events_text (strftime_dmy td) = (ls, x)
       \<and> ds = \<lparr>date = td, lessons = sort_key start_time ls\<rparr>)"
  using assms unfolding parse_schedule_from_html_def
  by (auto split: option.splits prod.splits if_splits)

text \<open>
  Claim C4.  Whenever the schedule parser returns a day schedule for a target date, the
  schedule carries that date, its lessons are in non-decreasing order of their start-time
  text, and every lesson in it is the conversion of an event record of the decoded
  payload whose \<open>Date\<close> field equals the requested date (formatted \<open>DD.MM.YYYY\<close>): events
  of other dates in the same payload never contribute a lesson.
\<close>

theorem day_schedule_requested_date_sorted:
  assumes "parse_schedule_from_html L html target_date = Inr ds"
  shows "date ds = target_date \<and> sorted (map start_time (lessons ds))
    \<and> (\<forall>l \<in> set (lessons ds). \<exists>events_text events evs ev.
          events_str html = Some events_text \<and> json_loads L events_text = Inr events
          \<and> py_iter events = Some evs \<and> ev \<in> set evs
          \<and> dict_get ev ''Date'' (JStr []) = Inr (JStr (strftime_dmy target_date))
          \<and> event_to_lesson L (strftime_dmy target_date) ev = Inr (Some l))"
proof -
  from parse_schedule_cases [OF assms] show ?thesis
  proof
    assume "ds = \<lparr>date = target_date, lessons = []\<rparr>"
    then show ?thesis by simp
  next
    assume "\<exists>events_text ls x. events_str html = Some events_text
        \<and> try_events L events_text (strftime_dmy target_date) = (ls, x)
        \<and> ds = \<lparr>date = target_date, lessons = sort_key start_time ls\<rparr>"
    then obtain events_text ls x where h: "events_str html = Some events_text"
      "try_events L events_text (strftime_dmy target_date) = (ls, x)"
      "ds = \<lparr>date = target_date, lessons = sort_key start_time ls\<rparr>" by blast
    have "\<exists>events_text events evs ev.
          events_str html = Some events_text \<and> json_loads L events_text = Inr events
          \<and> py_iter events = Some evs \<and> ev \<in> set evs
          \<and> dict_get ev ''Date'' (JStr []) = Inr (JStr (strftime_dmy target_date))
          \<and> event_to_lesson L (strftime_dmy target_date) ev = Inr (Some l)"
      if "l \<in> set ls" for l
      using try_events_lessons [OF h(2) that] h(1) event_to_lesson_date by blast
    with h(3) show ?thesis by simp
  qed
qed

theorem event_record_to_lesson_witness:
  "event_to_lesson example_lib ''08.02.2026'' scenario_event = Inr (Some
     \<lparr>start_time = ''08:30'', end_time = ''09:15'', subject = JStr ''Math'',
      teacher = JStr ''J. Doe'', room = JNull, groups = [], notes = JStr []\<rparr>)"
proof -
  have h: "dict_get scenario_event ''Date'' (JStr []) = Inr (JStr ''08.02.2026'')"
    "dict_get scenario_event ''Start'' (JInt 0) = Inr (JInt 510)" "(0::int) \<le> 510" "(510::int) < 1440"
    "dict_get scenario_event ''End'' (JInt 0) = Inr (JInt 555)" "(0::int) \<le> 555" "(555::int) < 1440"
    "dict_get scenario_event ''Text'' (JObj []) = Inr (JObj [(''0'', JStr ''Math'')])"
    "dict_get scenario_event ''Opet'' (JObj []) = Inr (JObj [(''0'', JStr ''O: J. Doe'')])"
    "(case map_of [(''0'', JStr ''O: J. Doe'')] ''0'' of Some v \<Rightarrow> v | None \<Rightarrow> JStr []) = JStr ''O: J. Doe''"
    "dict_get scenario_event ''LongText'' (JObj []) = Inr (JObj [])"
    by (simp_all add: scenario_event_def)
  from event_record_to_lesson [OF h, of example_lib] show ?thesis
    by (simp add: digit_char_def is_space_def)
qed

lemma parse_week_html: "parse_schedule_from_html example_lib week_html feb8 = Inr feb8_schedule"
  by code_simp

theorem day_schedule_requested_date_sorted_witness:
  "parse_schedule_from_html example_lib week_html feb8 = Inr feb8_schedule
    \<and> map start_time (lessons feb8_schedule) = [''08:30'', ''10:00'']
    \<and> sorted (map start_time (lessons feb8_schedule))
    \<and> (\<exists>events_text events evs ev.
          events_str week_html = Some events_text \<and> json_loads example_lib events_text = Inr events
          \<and> py_iter events = Some evs \<and> ev \<in> set evs
          \<and> dict_get ev ''Date'' (JStr []) = Inr (JStr (strftime_dmy feb8))
          \<and> event_to_lesson example_lib (strftime_dmy feb8) ev
              = Inr (Some (hd (lessons feb8_schedule))))"
proof -
  have run: "parse_schedule_from_html example_lib week_html feb8 = Inr feb8_schedule"
    by code_simp
  have first: "hd (lessons feb8_schedule) \<in> set (lessons feb8_schedule)"
    by (simp add: feb8_schedule_def)
  have times: "map start_time (lessons feb8_schedule) = [''08:30'', ''10:00'']"
    by (simp add: feb8_schedule_def)
  from day_schedule_requested_date_sorted [OF run] first run times show ?thesis
    by blast
qed

lemma re_sub_O_no_break_space: "re_sub_O (''O:'' @ [CHR 0xA0] @ ''X'') = ''X''"
  by code_simp

section \<open>Properties of the session manager and the dispatcher\<close>

lemma re_search_Some:
  "re_search m s = Some r \<Longrightarrow> \<exists>pre suf. s = pre @ suf \<and> m suf = Some r"
proof (induction s)
  case Nil
  then show ?case by simp
next
  case (Cons c cs)
  show ?case
  proof (cases "m (c # cs)")
    case None
    with Cons.prems have "re_search m cs = Some r" by simp
    from Cons.IH [OF this] obtain pre suf where "cs = pre @ suf" "m suf = Some r" by blast
    then have "c # cs = (c # pre) @ suf \<and> m suf = Some r" by simp
    then show ?thesis by blast
  next
    case (Some a)
    with Cons.prems have "c # cs = [] @ (c # cs) \<and> m (c # cs) = Some r" by simp
    then show ?thesis by blast
  qed
qed

lemma re_search_None:
  "re_search m s = None \<Longrightarrow> s = pre @ suf \<Longrightarrow> m suf = None"
proof (induction s arbitrary: pre)
  case Nil
  then show ?case by simp
next
  case (Cons c cs)
  from Cons.prems(1) have here: "m (c # cs) = None" and rec: "re_search m cs = None"
    by (simp_all split: option.splits)
  show ?case
  proof (cases pre)
    case Nil
    with Cons.prems(2) here show ?thesis by simp
  next
    case (Cons a pre')
    with Cons.prems(2) have "cs = pre' @ suf" by simp
    from Cons.IH [OF rec this] show ?thesis .
  qed
qed

lemma takeWhile_digits_split:
  "\<exists>rest. s = takeWhile is_digit s @ rest \<and> (case rest of [] \<Rightarrow> True | c # cs \<Rightarrow> \<not> is_digit c)"
proof -
  have "s = takeWhile is_digit s @ dropWhile is_digit s" by simp
  moreover have "case dropWhile is_digit s of [] \<Rightarrow> True | c # cs \<Rightarrow> \<not> is_digit c"
  proof (cases "dropWhile is_digit s")
    case Nil
    then show ?thesis by (simp only: list.case)
  next
    case (Cons a l)
    with hd_dropWhile [of is_digit s] show ?thesis by simp
  qed
  ultimately show ?thesis by blast
qed

lemma prefix_match_at_Some:
  assumes "prefix_match_at s = Some p"
  shows "\<exists>ds rest. s = ''/!'' @ ds @ rest \<and> p = ''/!'' @ ds \<and> ds \<noteq> []
     \<and> list_all is_digit ds \<and> (case rest of [] \<Rightarrow> True | c # cs \<Rightarrow> \<not> is_digit c)"
proof -
  from assms have pre: "prefix ''/!'' s" and ne: "takeWhile is_digit (drop 2 s) \<noteq> []"
    and p: "p = ''/!'' @ takeWhile is_digit (drop 2 s)"
    by (auto simp: prefix_match_at_def split: if_splits)
  from pre have s: "s = ''/!'' @ drop 2 s" by (auto elim!: prefixE)
  from takeWhile_digits_split [of "drop 2 s"] obtain rest where
    r: "drop 2 s = takeWhile is_digit (drop 2 s) @ rest"
    "case rest of [] \<Rightarrow> True | c # cs \<Rightarrow> \<not> is_digit c" by blast
  have "s = ''/!'' @ takeWhile is_digit (drop 2 s) @ rest"
    using s r(1) by metis
  moreover have "list_all is_digit (takeWhile is_digit (drop 2 s))"
    by (simp add: list_all_iff) (meson set_takeWhileD)
  ultimately show ?thesis using p ne r(2) by blast
qed

lemma prefix_match_at_None:
  assumes "prefix_match_at s = None"
  shows "\<not> (\<exists>d rest. s = ''/!'' @ d # rest \<and> is_digit d)"
proof
  assume "\<exists>d rest. s = ''/!'' @ d # rest \<and> is_digit d"
  then obtain d rest where "s = ''/!'' @ d # rest" "is_digit d" by blast
  then have "prefix_match_at s \<noteq> None"
    by (simp add: prefix_match_at_def)
  with assms show False by contradiction
qed

lemma search_prefix_Some:
  assumes "re_search prefix_match_at s = Some p"
  shows "spec_prefix_occurs [] p s"
proof -
  from re_search_Some [OF assms] obtain pre suf where s: "s = pre @ suf"
    and m: "prefix_match_at suf = Some p" by blast
  from prefix_match_at_Some [OF m] obtain ds rest where
    x: "suf = ''/!'' @ ds @ rest" "p = ''/!'' @ ds" "ds \<noteq> []"
    "list_all is_digit ds" "case rest of [] \<Rightarrow> True | c # cs \<Rightarrow> \<not> is_digit c"
    by blast
  from s x(1) have "s = pre @ [] @ ''/!'' @ ds @ rest" by simp
  with x(2-5) show ?thesis unfolding spec_prefix_occurs_def by blast
qed

lemma search_prefix_None:
  assumes "re_search prefix_match_at s = None"
  shows "\<not> spec_has_prefix [] s"
proof
  assume "spec_has_prefix [] s"
  then obtain pre d rest where s: "s = pre @ ''/!'' @ d # rest" and d: "is_digit d"
    unfolding spec_has_prefix_def by auto
  from re_search_None [OF assms s] have "prefix_match_at (''/!'' @ d # rest) = None" .
  from prefix_match_at_None [OF this] d show False by blast
qed

lemma search_href_Some:
  assumes "re_search href_prefix_match_at s = Some p"
  shows "spec_prefix_occurs ''href=\"'' p s"
proof -
  from re_search_Some [OF assms] obtain pre suf where s: "s = pre @ suf"
    and m: "href_prefix_match_at suf = Some p" by blast
  from m have h: "prefix ''href=\"'' suf" and m': "prefix_match_at (drop 6 suf) = Some p"
    by (auto simp: href_prefix_match_at_def split: if_splits)
  from h have suf: "suf = ''href=\"'' @ drop 6 suf" by (auto elim!: prefixE)
  from prefix_match_at_Some [OF m'] obtain ds rest where
    x: "drop 6 suf = ''/!'' @ ds @ rest" "p = ''/!'' @ ds" "ds \<noteq> []"
    "list_all is_digit ds" "case rest of [] \<Rightarrow> True | c # cs \<Rightarrow> \<not> is_digit c"
    by blast
  from s suf x(1) have "s = pre @ ''href=\"'' @ ''/!'' @ ds @ rest" by metis
  with x(2-5) show ?thesis unfolding spec_prefix_occurs_def by blast
qed

lemma search_href_None:
  assumes "re_search href_prefix_match_at s = None"
  shows "\<not> spec_has_prefix ''href=\"'' s"
proof
  assume "spec_has_prefix ''href=\"'' s"
  then obtain pre d rest where s: "s = pre @ ''href=\"'' @ ''/!'' @ d # rest" and d: "is_digit d"
    unfolding spec_has_prefix_def by auto
  from re_search_None [OF assms s]
  have "href_prefix_match_at (''href=\"'' @ ''/!'' @ d # rest) = None" .
  then have "prefix_match_at (''/!'' @ d # rest) = None"
    by (simp add: href_prefix_match_at_def)
  from prefix_match_at_None [OF this] d show False by blast
qed

lemma get_session_token_sent:
  "get_session_token L net c = (res, c1) \<Longrightarrow> c1 = c\<lparr>sent := sent c @ [index_request]\<rparr>"
  by (auto simp: get_session_token_def send_request_def
      split: outcome.splits if_splits option.splits sum.splits)

lemma get_session_token_net:
  assumes "\<And>rq. net' (length (sent c)) rq = net (length (sent c)) rq"
  shows "get_session_token L net' c = get_session_token L net c"
  by (simp add: get_session_token_def send_request_def assms)

text \<open>
  Claim C6.  Once the session token has been obtained and the credential POST has
  returned a response, whatever its status code: without a session cookie afterwards
  (none, or an empty one) \<open>login\<close> fails with \<open>WilmaAuthError\<close>; with one, \<open>login\<close> succeeds
  with the prefix found in the final URL, or else (the URL holds none) with the prefix
  found after \<open>href="\<close> in the body, and fails with \<open>WilmaAuthError\<close> when neither holds a
  prefix.  The prefix is \<open>/!\<close> and the digits after it.  Replacing the status code of the
  response by any other leaves the result of \<open>login\<close> unchanged.
\<close>

theorem login_cookie_then_prefix:
  assumes token: "get_session_token L net c = (Inr session_token, c1)"
    and post: "send_request net c1 (login_request c1 session_token) = (Reply r sid, c2)"
  shows "(sid = None \<or> sid = Some [] \<longrightarrow>
            login L net c = (Inl (WilmaAuthError ''Login failed - no session cookie received''),
                             c2\<lparr>session_id := sid\<rparr>))
    \<and> (sid \<noteq> None \<and> sid \<noteq> Some [] \<longrightarrow>
          (\<exists>p. login L net c = (Inr (), c2\<lparr>session_id := sid, user_prefix := Some p\<rparr>)
              \<and> (spec_prefix_occurs [] p (url r)
                  \<or> \<not> spec_has_prefix [] (url r) \<and> spec_prefix_occurs ''href=\"'' p (text r)))
          \<or> \<not> spec_has_prefix [] (url r) \<and> \<not> spec_has_prefix ''href=\"'' (text r)
            \<and> login L net c = (Inl (WilmaAuthError ''Could not determine user prefix after login''),
                               c2\<lparr>session_id := sid\<rparr>))
    \<and> (\<forall>k. login L (net(length (sent c1) := (\<lambda>rq. Reply (r\<lparr>status_code := k\<rparr>) sid))) c
            = login L net c)"
proof -
  have lg: "login L net c = post_credentials net c1 session_token"
    by (simp add: login_def token)
  have absent: "sid = None \<or> sid = Some [] \<Longrightarrow>
      post_credentials net c1 session_token
        = (Inl (WilmaAuthError ''Login failed - no session cookie received''), c2\<lparr>session_id := sid\<rparr>)"
    by (auto simp: post_credentials_def post Let_def)
  have present: "(\<exists>p. post_credentials net c1 session_token
                    = (Inr (), c2\<lparr>session_id := sid, user_prefix := Some p\<rparr>)
              \<and> (spec_prefix_occurs [] p (url r)
                  \<or> \<not> spec_has_prefix [] (url r) \<and> spec_prefix_occurs ''href=\"'' p (text r)))
          \<or> \<not> spec_has_prefix [] (url r) \<and> \<not> spec_has_prefix ''href=\"'' (text r)
            \<and> post_credentials net c1 session_token
                = (Inl (WilmaAuthError ''Could not determine user prefix after login''),
                   c2\<lparr>session_id := sid\<rparr>)"
    if sid: "sid \<noteq> None \<and> sid \<noteq> Some []"
  proof (cases "re_search prefix_match_at (url r)")
    case (Some p)
    with sid have "post_credentials net c1 session_token
        = (Inr (), c2\<lparr>session_id := sid, user_prefix := Some p\<rparr>)"
      by (auto simp: post_credentials_def post Let_def)
    with search_prefix_Some [OF Some] show ?thesis by blast
  next
    case None
    note no_url = search_prefix_None [OF None]
    show ?thesis
    proof (cases "re_search href_prefix_match_at (text r)")
      case (Some p)
      with sid None have "post_credentials net c1 session_token
          = (Inr (), c2\<lparr>session_id := sid, user_prefix := Some p\<rparr>)"
        by (auto simp: post_credentials_def post Let_def)
      with search_href_Some [OF Some] no_url show ?thesis by blast
    next
      case None2: None
      with sid None have "post_credentials net c1 session_token
          = (Inl (WilmaAuthError ''Could not determine user prefix after login''),
             c2\<lparr>session_id := sid\<rparr>)"
        by (auto simp: post_credentials_def post Let_def)
      with search_href_None [OF None2] no_url show ?thesis by blast
    qed
  qed
  have c1: "c1 = c\<lparr>sent := sent c @ [index_request]\<rparr>"
    by (rule get_session_token_sent [OF token])
  have status: "login L (net(length (sent c1) := (\<lambda>rq. Reply (r\<lparr>status_code := k\<rparr>) sid))) c
            = login L net c" for k
  proof -
    let ?n1 = "net(length (sent c1) := (\<lambda>rq. Reply (r\<lparr>status_code := k\<rparr>) sid))"
    have t1: "get_session_token L ?n1 c = (Inr session_token, c1)"
      using get_session_token_net [of ?n1 c net L] token by (simp add: c1)
    from post have n: "net (length (sent c1)) (login_request c1 session_token) = Reply r sid"
      by (simp add: send_request_def)
    show ?thesis
      by (simp add: login_def t1 token post_credentials_def send_request_def Let_def n
          cong: option.case_cong)
  qed
  from lg absent present status show ?thesis by simp
qed

theorem login_cookie_then_prefix_witness:
  "login example_lib expiring_net fresh_client = (Inr (), logged_in_client)
   \<and> spec_prefix_occurs [] ''/!0411876'' ''https://w.example/!0411876/''"
proof -
  let ?c1 = "fresh_client\<lparr>sent := [index_request]\<rparr>"
  let ?r = "\<lparr>url = ''https://w.example/!0411876/'', text = ''<html>'', status_code = 200\<rparr>"
  let ?c2 = "?c1\<lparr>sent := [index_request, login_request ?c1 (JStr ''abc'')]\<rparr>"
  have token: "get_session_token example_lib expiring_net fresh_client = (Inr (JStr ''abc''), ?c1)"
    by code_simp
  have post: "send_request expiring_net ?c1 (login_request ?c1 (JStr ''abc''))
      = (Reply ?r (Some ''xyz''), ?c2)"
    by code_simp
  have run: "login example_lib expiring_net fresh_client = (Inr (), logged_in_client)"
    by code_simp
  have has: "spec_has_prefix [] (url ?r)"
    unfolding spec_has_prefix_def
    by (intro exI [of _ "''https://w.example''"] exI [of _ "CHR ''0''"] exI [of _ "''411876/''"])
      (simp add: is_digit_def)
  have eq: "p = ''/!0411876''"
    if "(Inr (), logged_in_client) = (Inr (), ?c2\<lparr>session_id := Some ''xyz'', user_prefix := Some p\<rparr>)"
    for p
  proof -
    from that have "user_prefix logged_in_client
        = user_prefix (?c2\<lparr>session_id := Some ''xyz'', user_prefix := Some p\<rparr>)"
      by simp
    then show ?thesis by (simp add: logged_in_client_def)
  qed
  from login_cookie_then_prefix [OF token post] run has eq show ?thesis
    by auto
qed

lemma login_request_sent [simp]: "login_request (c\<lparr>sent := xs\<rparr>) t = login_request c t"
  by (simp add: login_request_def)

lemma login_request_session [simp]: "login_request (c\<lparr>session_id := x\<rparr>) t = login_request c t"
  by (simp add: login_request_def)

lemma login_success_sent:
  assumes "login L net c = (Inr u, c3)"
  shows "\<exists>token. sent c3 = sent c @ [index_request, login_request c token]"
proof -
  from assms obtain token c1 where t: "get_session_token L net c = (Inr token, c1)"
    and p: "post_credentials net c1 token = (Inr u, c3)"
    by (auto simp: login_def split: prod.splits sum.splits)
  from get_session_token_sent [OF t] have c1: "c1 = c\<lparr>sent := sent c @ [index_request]\<rparr>" .
  from p have "sent c3 = sent c1 @ [login_request c1 token]"
    by (auto simp: post_credentials_def send_request_def Let_def
        split: outcome.splits if_splits option.splits)
  with c1 show ?thesis by auto
qed

text \<open>
  Claim C2, as amended.  When the URL of the response to an authenticated request
  contains \<open>/login\<close> (in any letter case), the dispatcher resets the held session id and
  calls \<open>login\<close> once.  If \<open>login\<close> fails, its error is the result.  If it succeeds, exactly
  three further requests have been sent since the first one (the two of \<open>login\<close> and the
  original request once more), and the result of the retried request is returned as it
  is: its response whatever its URL, or \<open>WilmaAPIError\<close> for a transport failure.
\<close>

theorem request_expiry_retry_once:
  assumes auth: "ensure_authenticated L net c = (Inr (), c1)"
    and first: "send_request net c1 \<lparr>meth = method, path = prefixed_path c1 p, form_data = data\<rparr>
                  = (Reply r sid, c2)"
    and expired: "str_in ''/login'' (str_lower (url r))"
  shows "(\<exists>e c3. login L net (c2\<lparr>session_id := None\<rparr>) = (Inl e, c3)
             \<and> request L net c method p data = (Inl e, c3))
       \<or> (\<exists>c3 token. login L net (c2\<lparr>session_id := None\<rparr>) = (Inr (), c3)
             \<and> sent c3 = sent c1 @ [\<lparr>meth = method, path = prefixed_path c1 p, form_data = data\<rparr>,
                                     index_request, login_request c1 token]
             \<and> request L net c method p data =
                 (case net (length (sent c3))
                         \<lparr>meth = method, path = prefixed_path c1 p, form_data = data\<rparr> of
                    HTTPError \<Rightarrow> Inl (WilmaAPIError ''Request failed'')
                  | Reply r2 sid2 \<Rightarrow> Inr r2,
                  c3\<lparr>sent := sent c3 @ [\<lparr>meth = method, path = prefixed_path c1 p, form_data = data\<rparr>]\<rparr>))"
proof -
  let ?rq = "\<lparr>meth = method, path = prefixed_path c1 p, form_data = data\<rparr>"
  have rq: "request L net c method p data = dispatch L net c1 ?rq"
    by (simp add: request_def auth)
  from first have c2: "c2 = c1\<lparr>sent := sent c1 @ [?rq]\<rparr>"
    by (simp add: send_request_def)
  obtain res c3 where lg: "login L net (c2\<lparr>session_id := None\<rparr>) = (res, c3)"
    by (cases "login L net (c2\<lparr>session_id := None\<rparr>)")
  show ?thesis
  proof (cases res)
    case (Inl e)
    with lg have "dispatch L net c1 ?rq = (Inl e, c3)"
      unfolding dispatch_def first by (simp add: expired)
    with rq lg Inl show ?thesis by simp
  next
    case (Inr u)
    with lg have ok: "login L net (c2\<lparr>session_id := None\<rparr>) = (Inr (), c3)" by simp
    from login_success_sent [OF ok] obtain token where
      "sent c3 = sent (c2\<lparr>session_id := None\<rparr>)
          @ [index_request, login_request (c2\<lparr>session_id := None\<rparr>) token]" by blast
    with c2 have s3: "sent c3 = sent c1 @ [?rq, index_request, login_request c1 token]"
      by simp
    have "dispatch L net c1 ?rq =
        (case send_request net c3 ?rq of
           (HTTPError, c4) \<Rightarrow> (Inl (WilmaAPIError ''Request failed''), c4)
         | (Reply r2 sid2, c4) \<Rightarrow> (Inr r2, c4))"
      unfolding dispatch_def first by (simp add: expired ok)
    then have "dispatch L net c1 ?rq =
        (case net (length (sent c3)) ?rq of
           HTTPError \<Rightarrow> Inl (WilmaAPIError ''Request failed'')
         | Reply r2 sid2 \<Rightarrow> Inr r2,
         c3\<lparr>sent := sent c3 @ [?rq]\<rparr>)"
      by (simp add: send_request_def split: outcome.splits)
    with rq ok s3 show ?thesis
      by (intro disjI2 exI [of _ c3] exI [of _ token]) simp
  qed
qed

text \<open>
  Claim C2 as stated fails: when the retried request is redirected to the login page
  again, the dispatcher returns that response to the caller and raises nothing.
\<close>

theorem second_expiry_returned_counterexample:
  "fst (request example_lib expiring_net fresh_client ''GET'' ''/messages'' None)
     = Inr expired_response
   \<and> str_in ''/login'' (str_lower (url expired_response))
   \<and> map path (sent (snd (request example_lib expiring_net fresh_client ''GET'' ''/messages'' None)))
     = [''/index_json'', ''/login'', ''/!0411876/messages'',
        ''/index_json'', ''/login'', ''/!0411876/messages'']"
  by code_simp

theorem request_expiry_retry_once_witness:
  "request example_lib expiring_net logged_in_client ''GET'' ''/messages'' None
     = (Inr expired_response,
        logged_in_client\<lparr>sent := sent logged_in_client
          @ [\<lparr>meth = ''GET'', path = ''/!0411876/messages'', form_data = None\<rparr>,
             index_request, login_request fresh_client (JStr ''abc''),
             \<lparr>meth = ''GET'', path = ''/!0411876/messages'', form_data = None\<rparr>]\<rparr>)"
proof -
  let ?rq = "\<lparr>meth = ''GET'', path = ''/!0411876/messages'', form_data = None\<rparr>"
  let ?c2 = "logged_in_client\<lparr>sent := sent logged_in_client @ [?rq]\<rparr>"
  have auth: "ensure_authenticated example_lib expiring_net logged_in_client
      = (Inr (), logged_in_client)"
    by code_simp
  have pp: "prefixed_path logged_in_client ''/messages'' = ''/!0411876/messages''"
    by code_simp
  have first: "send_request expiring_net logged_in_client
        \<lparr>meth = ''GET'', path = prefixed_path logged_in_client ''/messages'', form_data = None\<rparr>
      = (Reply expired_response (Some ''xyz''), ?c2)"
    unfolding pp by code_simp
  have expired: "str_in ''/login'' (str_lower (url expired_response))"
    by code_simp
  have relogin: "login example_lib expiring_net (?c2\<lparr>session_id := None\<rparr>)
      = (Inr (), ?c2\<lparr>sent := sent ?c2 @ [index_request, login_request fresh_client (JStr ''abc'')]\<rparr>)"
    by code_simp
  have retry: "expiring_net n ?rq = Reply expired_response (Some ''xyz'')" for n
    by (simp add: expiring_net_def expired_reply_def expired_response_def)
  from request_expiry_retry_once [OF auth first expired] relogin retry show ?thesis
    by (auto simp: pp)
qed

section \<open>Properties of the timestamp and message-list parsers\<close>

lemma try_formats_all_fail:
  "\<forall>fmt \<in> set fmts. strptime L ts fmt = None \<Longrightarrow> try_formats L now ts fmts = None"
  by (induction fmts) simp_all

lemma extract_components_day_32: "extract_components now ''32.1.2024'' = Inl ValueError"
  by code_simp

lemma strip_day_32: "str_strip ''32.1.2024'' = ''32.1.2024''"
  by code_simp

text \<open>
  Claim C8, at the failing input \<open>32.1.2024\<close>.  None of the seven formats parses the text
  (\<open>strptime\<close> refuses a day 32), the date expression then extracts day 32, month 1 and
  year 2024, and the \<open>datetime\<close> constructor raises \<open>ValueError\<close>, which nothing catches: the
  parser raises where the claim promises a \<open>datetime\<close>.
\<close>

theorem finnish_timestamp_raises:
  assumes "\<forall>fmt \<in> set formats. strptime L ''32.1.2024'' fmt = None"
  shows "parse_finnish_timestamp L now ''32.1.2024'' = Inl ValueError"
  using try_formats_all_fail [OF assms, of now]
  by (simp add: parse_finnish_timestamp_def strip_day_32 extract_components_day_32)

theorem finnish_timestamp_raises_witness:
  "parse_finnish_timestamp example_lib clock1 ''32.1.2024'' = Inl ValueError"
proof -
  have "\<forall>fmt \<in> set formats. strptime example_lib ''32.1.2024'' fmt = None"
    by (simp add: example_lib_def)
  then show ?thesis by (rule finnish_timestamp_raises)
qed

text \<open>
  Claim C7 as stated fails: the parsers read the clock.  The empty timestamp text, parsed
  at two readings of the clock, gives two different values.
\<close>

theorem parsing_reads_clock_counterexample:
  "parse_finnish_timestamp example_lib clock1 [] \<noteq> parse_finnish_timestamp example_lib clock2 []"
  by (simp add: parse_finnish_timestamp_def clock1_def clock2_def)

lemma message_summary_clock:
  assumes "\<And>s. dict_get msg ''TimeStamp'' (JStr []) = Inr (JStr s)
             \<Longrightarrow> strptime L s ''%Y-%m-%d %H:%M'' \<noteq> None"
  shows "message_summary L now1 f msg = message_summary L now2 f msg"
proof (cases "dict_get msg ''TimeStamp'' (JStr [])")
  case (Inl e)
  then show ?thesis by (simp add: message_summary_def)
next
  case (Inr v)
  show ?thesis
  proof (cases v)
    case (JStr s)
    with Inr assms [of s] obtain t where "strptime L s ''%Y-%m-%d %H:%M'' = Some t" by auto
    with Inr JStr show ?thesis
      by (simp add: message_summary_def cong: sum.case_cong prod.case_cong)
  qed (use Inr in \<open>simp_all add: message_summary_def\<close>)
qed

lemma summaries_clock:
  "(\<And>msg s. msg \<in> set msgs \<Longrightarrow> dict_get msg ''TimeStamp'' (JStr []) = Inr (JStr s)
        \<Longrightarrow> strptime L s ''%Y-%m-%d %H:%M'' \<noteq> None) \<Longrightarrow>
   summaries L now1 f msgs = summaries L now2 f msgs"
proof (induction msgs)
  case Nil
  then show ?case by simp
next
  case (Cons msg msgs)
  have "message_summary L now1 f msg = message_summary L now2 f msg"
    by (rule message_summary_clock) (use Cons.prems in auto)
  moreover have "summaries L now1 f msgs = summaries L now2 f msgs"
    by (rule Cons.IH) (use Cons.prems in auto)
  ultimately show ?case by (simp cong: sum.case_cong)
qed

lemma parse_messages_json_clock:
  assumes "\<forall>msg_list msgs msg s.
      dict_get data ''Messages'' (JArr []) = Inr msg_list \<longrightarrow>
      sliced_items msg_list limit = Some msgs \<longrightarrow> msg \<in> set msgs \<longrightarrow>
      dict_get msg ''TimeStamp'' (JStr []) = Inr (JStr s) \<longrightarrow>
      strptime L s ''%Y-%m-%d %H:%M'' \<noteq> None"
  shows "parse_messages_json L now1 data f limit = parse_messages_json L now2 data f limit"
proof (cases "dict_get data ''Messages'' (JArr [])")
  case (Inl e)
  then show ?thesis by (simp add: parse_messages_json_def)
next
  case (Inr msg_list)
  show ?thesis
  proof (cases "sliced_items msg_list limit")
    case None
    with Inr show ?thesis by (simp add: parse_messages_json_def)
  next
    case (Some msgs)
    have "summaries L now1 f msgs = summaries L now2 f msgs"
      by (rule summaries_clock) (use assms Inr Some in blast)
    with Inr Some show ?thesis by (simp add: parse_messages_json_def)
  qed
qed

lemma try_formats_first:
  assumes "\<forall>g \<in> set pre. strptime L ts g = None"
    and "strptime L ts fmt = Some p" and "year p \<noteq> 1900"
  shows "try_formats L now ts (pre @ fmt # post) = Some p"
  using assms by (induction pre) simp_all

lemma timestamp_first_format:
  assumes "ts \<noteq> []" and "formats = pre @ fmt # post"
    and "\<forall>g \<in> set pre. strptime L (str_strip ts) g = None"
    and "strptime L (str_strip ts) fmt = Some p" and "year p \<noteq> 1900"
  shows "parse_finnish_timestamp L now ts = Inr p"
  using try_formats_first [OF assms(3-5), of now post] assms(1,2)
  by (simp add: parse_finnish_timestamp_def)

lemma timestamp_explicit_year:
  assumes "ts \<noteq> []" and "\<forall>g \<in> set formats. strptime L (str_strip ts) g = None"
    and "re_search date_match_at (str_strip ts) = Some (d, m, Some y)"
  shows "parse_finnish_timestamp L now1 ts = parse_finnish_timestamp L now2 ts"
proof -
  have "try_formats L now ts' formats = None"
    if "\<forall>g \<in> set formats. strptime L ts' g = None" for now ts'
    using that by (rule try_formats_all_fail)
  with assms(2) have t: "try_formats L now1 (str_strip ts) formats = None"
    "try_formats L now2 (str_strip ts) formats = None" by blast+
  have e: "extract_components now1 (str_strip ts) = extract_components now2 (str_strip ts)"
    by (simp add: extract_components_def assms(3))
  show ?thesis
    by (simp add: parse_finnish_timestamp_def assms(1) t e)
qed

text \<open>
  Claim C7, as amended.  Parsing the same markup at two readings of the clock yields
  identical results whenever the parse takes no fallback to the current time: for the
  message-list parser, when every \<open>TimeStamp\<close> text of the items taken parses; for the
  markup timestamp parser, when the text is not empty and either the first format that
  parses the stripped text gives a year other than the placeholder 1900 (the result is
  that parsed value), or no format parses it and the date expression finds a date with its
  year.
\<close>

theorem parsing_without_fallback_clock_free:
  "((\<forall>msg_list msgs msg s.
        dict_get data ''Messages'' (JArr []) = Inr msg_list \<longrightarrow>
        sliced_items msg_list limit = Some msgs \<longrightarrow> msg \<in> set msgs \<longrightarrow>
        dict_get msg ''TimeStamp'' (JStr []) = Inr (JStr s) \<longrightarrow>
        strptime L s ''%Y-%m-%d %H:%M'' \<noteq> None)
      \<longrightarrow> parse_messages_json L now1 data folder_arg limit
          = parse_messages_json L now2 data folder_arg limit)
   \<and> (ts \<noteq> [] \<and> formats = pre @ fmt # post
        \<and> (\<forall>g \<in> set pre. strptime L (str_strip ts) g = None)
        \<and> strptime L (str_strip ts) fmt = Some p \<and> year p \<noteq> 1900
      \<longrightarrow> parse_finnish_timestamp L now1 ts = Inr p
        \<and> parse_finnish_timestamp L now2 ts = Inr p)
   \<and> (ts \<noteq> [] \<and> (\<forall>g \<in> set formats. strptime L (str_strip ts) g = None)
        \<and> re_search date_match_at (str_strip ts) = Some (d, m, Some y)
      \<longrightarrow> parse_finnish_timestamp L now1 ts = parse_finnish_timestamp L now2 ts)"
proof (intro conjI impI)
  assume "\<forall>msg_list msgs msg s.
        dict_get data ''Messages'' (JArr []) = Inr msg_list \<longrightarrow>
        sliced_items msg_list limit = Some msgs \<longrightarrow> msg \<in> set msgs \<longrightarrow>
        dict_get msg ''TimeStamp'' (JStr []) = Inr (JStr s) \<longrightarrow>
        strptime L s ''%Y-%m-%d %H:%M'' \<noteq> None"
  then show "parse_messages_json L now1 data folder_arg limit
          = parse_messages_json L now2 data folder_arg limit"
    by (rule parse_messages_json_clock)
next
  assume a: "ts \<noteq> [] \<and> formats = pre @ fmt # post
        \<and> (\<forall>g \<in> set pre. strptime L (str_strip ts) g = None)
        \<and> strptime L (str_strip ts) fmt = Some p \<and> year p \<noteq> 1900"
  then have a1: "ts \<noteq> []" and a2: "formats = pre @ fmt # post"
    and a3: "\<forall>g \<in> set pre. strptime L (str_strip ts) g = None"
    and a4: "strptime L (str_strip ts) fmt = Some p" and a5: "year p \<noteq> 1900"
    by simp_all
  show "parse_finnish_timestamp L now1 ts = Inr p"
    by (rule timestamp_first_format [OF a1 a2 a3 a4 a5])
  show "parse_finnish_timestamp L now2 ts = Inr p"
    by (rule timestamp_first_format [OF a1 a2 a3 a4 a5])
next
  assume b: "ts \<noteq> [] \<and> (\<forall>g \<in> set formats. strptime L (str_strip ts) g = None)
        \<and> re_search date_match_at (str_strip ts) = Some (d, m, Some y)"
  then have b1: "ts \<noteq> []" and b2: "\<forall>g \<in> set formats. strptime L (str_strip ts) g = None"
    and b3: "re_search date_match_at (str_strip ts) = Some (d, m, Some y)"
    by simp_all
  show "parse_finnish_timestamp L now1 ts = parse_finnish_timestamp L now2 ts"
    by (rule timestamp_explicit_year [OF b1 b2 b3])
qed

theorem parsing_without_fallback_clock_free_witness:
  "parse_messages_json example_lib clock1 messages_data ''inbox'' 20
     = parse_messages_json example_lib clock2 messages_data ''inbox'' 20
   \<and> parse_finnish_timestamp example_lib clock1 '' 8.2.2026 11:42'' = Inr feb8_1142
   \<and> parse_finnish_timestamp example_lib clock2 '' 8.2.2026 11:42'' = Inr feb8_1142
   \<and> parse_finnish_timestamp example_lib clock1 ''ma 15.3.2024 klo 14:30''
     = parse_finnish_timestamp example_lib clock2 ''ma 15.3.2024 klo 14:30''"
proof -
  have a: "\<forall>msg_list msgs msg s.
        dict_get messages_data ''Messages'' (JArr []) = Inr msg_list \<longrightarrow>
        sliced_items msg_list 20 = Some msgs \<longrightarrow> msg \<in> set msgs \<longrightarrow>
        dict_get msg ''TimeStamp'' (JStr []) = Inr (JStr s) \<longrightarrow>
        strptime example_lib s ''%Y-%m-%d %H:%M'' \<noteq> None"
    by (auto simp: messages_data_def slice_to_def example_lib_def)
  have s1: "str_strip '' 8.2.2026 11:42'' = ''8.2.2026 11:42''"
    by code_simp
  have b: "'' 8.2.2026 11:42'' \<noteq> []
      \<and> formats = [] @ ''%d.%m.%Y %H:%M'' # [''%d.%m.%Y %H.%M'', ''%d.%m.%Y'', ''%d.%m. %H:%M'',
              ''%d.%m.'', ''%Y-%m-%d %H:%M:%S'', ''%Y-%m-%d'']
      \<and> (\<forall>g \<in> set []. strptime example_lib (str_strip '' 8.2.2026 11:42'') g = None)
      \<and> strptime example_lib (str_strip '' 8.2.2026 11:42'') ''%d.%m.%Y %H:%M'' = Some feb8_1142
      \<and> year feb8_1142 \<noteq> 1900"
    by (simp add: s1 example_lib_def feb8_1142_def formats_def)
  have s2: "str_strip ''ma 15.3.2024 klo 14:30'' = ''ma 15.3.2024 klo 14:30''"
    by code_simp
  have m: "re_search date_match_at ''ma 15.3.2024 klo 14:30'' = Some (''15'', ''3'', Some ''2024'')"
    by code_simp
  have c3: "re_search date_match_at (str_strip ''ma 15.3.2024 klo 14:30'')
          = Some (''15'', ''3'', Some ''2024'')"
    unfolding s2 by (rule m)
  have c2: "\<forall>g \<in> set formats. strptime example_lib (str_strip ''ma 15.3.2024 klo 14:30'') g = None"
    unfolding s2 by (simp add: example_lib_def)
  have c: "''ma 15.3.2024 klo 14:30'' \<noteq> []
      \<and> (\<forall>g \<in> set formats. strptime example_lib (str_strip ''ma 15.3.2024 klo 14:30'') g = None)
      \<and> re_search date_match_at (str_strip ''ma 15.3.2024 klo 14:30'')
          = Some (''15'', ''3'', Some ''2024'')"
    using c2 c3 by blast
  note inst1 = parsing_without_fallback_clock_free
    [where data = messages_data and limit = 20 and L = example_lib
      and ts = "'' 8.2.2026 11:42''" and pre = "[]" and fmt = "''%d.%m.%Y %H:%M''"
      and post = "[''%d.%m.%Y %H.%M'', ''%d.%m.%Y'', ''%d.%m. %H:%M'',
              ''%d.%m.'', ''%Y-%m-%d %H:%M:%S'', ''%Y-%m-%d'']"
      and p = feb8_1142 and ?now1.0 = clock1 and ?now2.0 = clock2 and folder_arg = "''inbox''"]
  note inst2 = parsing_without_fallback_clock_free
    [where L = example_lib and ts = "''ma 15.3.2024 klo 14:30''" and d = "''15''" and m = "''3''"
      and y = "''2024''" and ?now1.0 = clock1 and ?now2.0 = clock2]
  from inst1 a b have
    "parse_messages_json example_lib clock1 messages_data ''inbox'' 20
       = parse_messages_json example_lib clock2 messages_data ''inbox'' 20"
    "parse_finnish_timestamp example_lib clock1 '' 8.2.2026 11:42'' = Inr feb8_1142"
    "parse_finnish_timestamp example_lib clock2 '' 8.2.2026 11:42'' = Inr feb8_1142"
    by blast+
  moreover from inst2 c have
    "parse_finnish_timestamp example_lib clock1 ''ma 15.3.2024 klo 14:30''
       = parse_finnish_timestamp example_lib clock2 ''ma 15.3.2024 klo 14:30''"
    by blast
  ultimately show ?thesis by simp
qed

section \<open>Properties of the domain assemblers\<close>

lemma message_summary_folder:
  assumes "message_summary L now f msg = Inr m"
  shows "\<exists>kvs. msg = JObj kvs
     \<and> folder m = (case map_of kvs ''Folder'' of Some v \<Rightarrow> v | None \<Rightarrow> JStr f)"
proof (cases msg)
  case (JObj kvs)
  with assms show ?thesis
    by (auto simp: message_summary_def split: json.splits)
qed (use assms in \<open>simp_all add: message_summary_def\<close>)

lemma summaries_folder:
  "summaries L now f msgs = Inr ms \<Longrightarrow>
   list_all2 (\<lambda>msg m. \<exists>kvs. msg = JObj kvs
       \<and> folder m = (case map_of kvs ''Folder'' of Some v \<Rightarrow> v | None \<Rightarrow> JStr f)) msgs ms"
proof (induction msgs arbitrary: ms)
  case Nil
  then show ?case by simp
next
  case (Cons msg msgs)
  from Cons.prems obtain m ms' where m: "message_summary L now f msg = Inr m"
    and r: "summaries L now f msgs = Inr ms'" and ms: "ms = m # ms'"
    by (auto split: sum.splits)
  from message_summary_folder [OF m] Cons.IH [OF r] ms show ?case by simp
qed

lemma get_messages_state:
  "snd (get_messages L net now c f limit)
     = snd (request L net c ''GET'' ''/messages/list/index_json'' None)"
  by (simp add: get_messages_def split: prod.splits sum.splits option.splits)

text \<open>
  Claim C10.  Whatever the folder argument, \<open>get_messages\<close> issues the requests of
  \<open>_request("GET", "/messages/list/index_json")\<close> and no other, so two calls that differ
  only in the folder send the same requests and leave the client in the same state.  Each
  summary returned comes from a dict item of the decoded list, in order, and its folder is
  the item's own \<open>Folder\<close> value when the item has that key, and the folder argument
  otherwise.
\<close>

theorem get_messages_folder_label:
  "snd (get_messages L net now c folder1 limit)
      = snd (request L net c ''GET'' ''/messages/list/index_json'' None)
   \<and> snd (get_messages L net now c folder1 limit) = snd (get_messages L net now c folder2 limit)
   \<and> (get_messages L net now c folder1 limit = (Inr ms, c') \<longrightarrow>
        (\<exists>r data msg_list msgs.
            request L net c ''GET'' ''/messages/list/index_json'' None = (Inr r, c')
          \<and> response_json L r = Inr data
          \<and> dict_get data ''Messages'' (JArr []) = Inr msg_list
          \<and> sliced_items msg_list limit = Some msgs
          \<and> list_all2 (\<lambda>msg m. \<exists>kvs. msg = JObj kvs
                \<and> folder m = (case map_of kvs ''Folder'' of
                                 Some v \<Rightarrow> v | None \<Rightarrow> JStr folder1)) msgs ms))"
proof (intro conjI impI)
  show "snd (get_messages L net now c folder1 limit)
      = snd (request L net c ''GET'' ''/messages/list/index_json'' None)"
    by (rule get_messages_state)
  show "snd (get_messages L net now c folder1 limit) = snd (get_messages L net now c folder2 limit)"
    by (simp add: get_messages_state)
next
  assume run: "get_messages L net now c folder1 limit = (Inr ms, c')"
  then obtain r data where rq: "request L net c ''GET'' ''/messages/list/index_json'' None = (Inr r, c')"
    and d: "response_json L r = Inr data"
    and p: "parse_messages_json L now data folder1 limit = Inr ms"
    by (auto simp: get_messages_def split: prod.splits sum.splits option.splits if_splits)
  from p obtain msg_list msgs where ml: "dict_get data ''Messages'' (JArr []) = Inr msg_list"
    and sl: "sliced_items msg_list limit = Some msgs"
    and su: "summaries L now folder1 msgs = Inr ms"
    by (auto simp: parse_messages_json_def split: sum.splits option.splits)
  from summaries_folder [OF su] rq d ml sl
  show "\<exists>r data msg_list msgs.
            request L net c ''GET'' ''/messages/list/index_json'' None = (Inr r, c')
          \<and> response_json L r = Inr data
          \<and> dict_get data ''Messages'' (JArr []) = Inr msg_list
          \<and> sliced_items msg_list limit = Some msgs
          \<and> list_all2 (\<lambda>msg m. \<exists>kvs. msg = JObj kvs
                \<and> folder m = (case map_of kvs ''Folder'' of
                                 Some v \<Rightarrow> v | None \<Rightarrow> JStr folder1)) msgs ms"
    by blast
qed

theorem get_messages_folder_label_witness:
  "snd (get_messages example_lib portal_net clock1 logged_in_client ''inbox'' 20)
     = snd (get_messages example_lib portal_net clock1 logged_in_client ''sent'' 20)
   \<and> map folder (projr (fst (get_messages example_lib portal_net clock1 logged_in_client ''inbox'' 20)))
     = [JStr ''inbox'', JStr ''archive'']
   \<and> map path (sent (snd (get_messages example_lib portal_net clock1 logged_in_client ''sent'' 20)))
     = [''/index_json'', ''/login'', ''/!0411876/messages/list/index_json'']
   \<and> (\<exists>ms c' msgs. get_messages example_lib portal_net clock1 logged_in_client ''inbox'' 20
            = (Inr ms, c')
        \<and> list_all2 (\<lambda>msg m. \<exists>kvs. msg = JObj kvs
              \<and> folder m = (case map_of kvs ''Folder'' of
                               Some v \<Rightarrow> v | None \<Rightarrow> JStr ''inbox'')) msgs ms)"
proof -
  obtain ms c' where run:
    "get_messages example_lib portal_net clock1 logged_in_client ''inbox'' 20 = (Inr ms, c')"
    and labels: "map folder ms = [JStr ''inbox'', JStr ''archive'']"
  proof
    show "get_messages example_lib portal_net clock1 logged_in_client ''inbox'' 20
      = (Inr [\<lparr>id_ms = ''7'', subject_ms = JStr ''Hi'', sender = JStr ''Admin'',
                timestamp = feb8_1142, is_read = False, folder = JStr ''inbox''\<rparr>,
              \<lparr>id_ms = ''8'', subject_ms = JStr ''Re'', sender = JStr ''Me'',
                timestamp = feb8_1142, is_read = True, folder = JStr ''archive''\<rparr>],
         logged_in_client\<lparr>sent := sent logged_in_client
           @ [\<lparr>meth = ''GET'', path = ''/!0411876/messages/list/index_json'',
               form_data = None\<rparr>]\<rparr>)"
      by code_simp
    show "map folder [\<lparr>id_ms = ''7'', subject_ms = JStr ''Hi'', sender = JStr ''Admin'',
                timestamp = feb8_1142, is_read = False, folder = JStr ''inbox''\<rparr>,
              \<lparr>id_ms = ''8'', subject_ms = JStr ''Re'', sender = JStr ''Me'',
                timestamp = feb8_1142, is_read = True, folder = JStr ''archive''\<rparr>]
       = [JStr ''inbox'', JStr ''archive'']"
      by simp
  qed
  have log: "map path (sent (snd (get_messages example_lib portal_net clock1 logged_in_client ''sent'' 20)))
     = [''/index_json'', ''/login'', ''/!0411876/messages/list/index_json'']"
    by code_simp
  note inst = get_messages_folder_label
    [where L = example_lib and net = portal_net and now = clock1 and c = logged_in_client
      and ?folder1.0 = "''inbox''" and ?folder2.0 = "''sent''" and limit = 20
      and ms = ms and c' = c']
  from inst run have "\<exists>msgs. list_all2 (\<lambda>msg m. \<exists>kvs. msg = JObj kvs
              \<and> folder m = (case map_of kvs ''Folder'' of
                               Some v \<Rightarrow> v | None \<Rightarrow> JStr ''inbox'')) msgs ms"
    by blast
  with inst run labels log show ?thesis by auto
qed














lemma str_in_occurrence:
  assumes "h = a @ sub @ b"
  shows "str_in sub h"
proof (rule ccontr)
  assume "\<not> str_in sub h"
  then have none: "str_find h sub 0 = None" by (simp add: str_in_def)
  have "\<not> prefix sub (drop (length a) h)"
    by (rule str_find_None [OF none]) (simp_all add: assms)
  then show False by (simp add: assms)
qed

lemma quoted_value_Some:
  assumes "quoted_value s = Some (v, rest)"
  shows "s = v @ CHR 0x22 # rest"
proof -
  let ?P = "\<lambda>c. c \<noteq> CHR 0x22"
  from assms obtain q where d: "dropWhile ?P s = q # rest" and v: "v = takeWhile ?P s"
    by (auto simp: quoted_value_def split: list.splits)
  from hd_dropWhile [of ?P s] d have "q = CHR 0x22" by simp
  moreover have "s = takeWhile ?P s @ dropWhile ?P s" by simp
  ultimately show ?thesis using d v by simp
qed

lemma formkey_name_first_occurrence:
  assumes "formkey_name_first_at s = Some k"
  shows "\<exists>b. s = ''name=\"formkey\"'' @ b"
proof -
  from assms have "prefix ''name=\"formkey\"'' s"
    by (simp add: formkey_name_first_at_def split: if_splits)
  then show ?thesis by (auto elim!: prefixE)
qed

lemma formkey_value_first_occurrence:
  assumes "formkey_value_first_at s = Some k"
  shows "\<exists>a b. s = a @ ''name=\"formkey\"'' @ b"
proof -
  from assms obtain v rest where p: "prefix ''value=\"'' s"
    and q: "quoted_value (drop 7 s) = Some (v, rest)"
    and n: "prefix ''name=\"formkey\"'' (dropWhile is_space rest)"
    by (auto simp: formkey_value_first_at_def split: if_splits option.splits)
  from p have s: "s = ''value=\"'' @ drop 7 s" by (auto elim!: prefixE)
  from n obtain b where b: "dropWhile is_space rest = ''name=\"formkey\"'' @ b"
    by (auto elim!: prefixE)
  have "rest = takeWhile is_space rest @ dropWhile is_space rest" by simp
  with b have rest: "rest = takeWhile is_space rest @ ''name=\"formkey\"'' @ b" by simp
  have "s = (''value=\"'' @ v @ CHR 0x22 # takeWhile is_space rest) @ ''name=\"formkey\"'' @ b"
    using s quoted_value_Some [OF q] rest
    by (metis append.assoc append_Cons)
  then show ?thesis by blast
qed

lemma formkey_match_needs_name:
  assumes "\<not> str_in ''name=\"formkey\"'' h"
  shows "formkey_match h = None"
proof (rule ccontr)
  assume "formkey_match h \<noteq> None"
  then consider k where "re_search formkey_name_first_at h = Some k"
    | k where "re_search formkey_value_first_at h = Some k"
    by (auto simp: formkey_match_def split: option.splits)
  then have "\<exists>a b. h = a @ ''name=\"formkey\"'' @ b"
  proof cases
    case 1
    from re_search_Some [OF 1] obtain pre suf where "h = pre @ suf"
      "formkey_name_first_at suf = Some k" by blast
    with formkey_name_first_occurrence show ?thesis by blast
  next
    case 2
    from re_search_Some [OF 2] obtain pre suf where h: "h = pre @ suf"
      and m: "formkey_value_first_at suf = Some k" by blast
    from formkey_value_first_occurrence [OF m] obtain a b where
      "suf = a @ ''name=\"formkey\"'' @ b" by blast
    with h have "h = (pre @ a) @ ''name=\"formkey\"'' @ b" by simp
    then show ?thesis by blast
  qed
  then obtain a b where "h = a @ ''name=\"formkey\"'' @ b" by blast
  from str_in_occurrence [OF this] assms show False by contradiction
qed

lemma no_marker_no_events:
  assumes "\<not> str_in ''Events : ['' html \<and> \<not> str_in ''Events: ['' html"
  shows "events_str html = None"
proof -
  from assms events_start_Some_iff [of html] have "events_start html = None" by simp
  then show ?thesis by (simp add: events_str_def array_start_def)
qed

lemma schedule_no_array:
  assumes "(\<not> str_in ''Events : ['' html \<and> \<not> str_in ''Events: ['' html)
      \<or> events_str html = None"
  shows "parse_schedule_from_html L html d = Inr \<lparr>date = d, lessons = []\<rparr>"
proof -
  from assms no_marker_no_events [of html] have "events_str html = None" by blast
  then show ?thesis by (simp add: parse_schedule_from_html_def)
qed

lemma schedule_caught:
  assumes "events_str html = Some es"
    and "try_events L es (strftime_dmy d) = (ls, Some e)"
    and "e = JSONDecodeError \<or> e = KeyError \<or> e = TypeError"
  shows "parse_schedule_from_html L html d = Inr \<lparr>date = d, lessons = sort_key start_time ls\<rparr>"
  using assms(3) by (simp add: parse_schedule_from_html_def assms(1,2) caught_def)

lemma schedule_not_json:
  assumes "events_str html = Some es" and "json_loads L es = Inl JSONDecodeError"
  shows "parse_schedule_from_html L html d = Inr \<lparr>date = d, lessons = []\<rparr>"
proof -
  have "try_events L es (strftime_dmy d) = ([], Some JSONDecodeError)"
    by (simp add: try_events_def assms(2))
  from schedule_caught [OF assms(1) this] show ?thesis by simp
qed

lemma message_summary_now:
  assumes "dict_get msg ''TimeStamp'' (JStr []) = Inr (JStr s)"
    and "strptime L s ''%Y-%m-%d %H:%M'' = None"
  shows "\<exists>m. message_summary L now f msg = Inr m \<and> timestamp m = now"
proof (cases msg)
  case (JObj kvs)
  with assms show ?thesis by (simp add: message_summary_def)
qed (use assms(1) in simp_all)

lemma send_without_formkey:
  assumes "request L net c ''GET'' ''/messages/compose'' None = (Inr r0, c0)"
    and "\<not> str_in ''name=\"formkey\"'' (text r0)"
  shows "send_message L net c recipient_ids subj body reply_to_id =
    (case request L net c0 ''POST'' ''/messages/compose''
            (Some ([(''formkey'', JStr []), (''rcpt'', JStr (join_comma recipient_ids)),
                    (''subject'', JStr subj), (''body'', JStr body)]
                   @ (case reply_to_id of
                        None \<Rightarrow> []
                      | Some i \<Rightarrow> if i = [] then [] else [(''replyto'', JStr i)]))) of
       (Inl e, c2) \<Rightarrow> (Inl e, c2)
     | (Inr r, c2) \<Rightarrow>
         (judge_response ''Failed to send message - server returned an error'' r, c2))"
  unfolding send_message_def assms(1)
  by (simp add: formkey_match_needs_name [OF assms(2)])

lemma get_messages_unparsable:
  assumes "request L net c ''GET'' ''/messages/list/index_json'' None = (Inr r, c1)"
    and "json_loads L (text r) = Inl e" and "e = JSONDecodeError \<or> e = ValueError"
  shows "get_messages L net now c f limit
            = (Inl (WilmaAPIError ''Failed to parse messages response''), c1)"
  unfolding get_messages_def assms(1)
  using assms(3) by (auto simp: response_json_def assms(2) is_value_error_def)

lemma reply_without_formkey:
  assumes "request L net c ''GET'' (''/messages/compose?answer='' @ message_id) None = (Inr r', c1')"
    and "\<not> str_in ''name=\"formkey\"'' (text r')"
  shows "reply_to_message L net c message_id body
            = (Inl (WilmaAPIError ''Could not extract formkey from reply compose form''), c1')"
  unfolding reply_to_message_def assms(1)
  by (simp add: formkey_match_needs_name [OF assms(2)])

text \<open>
  Claim C3, as amended.  The failures that the embedded-data extractor handles are not
  raised to the caller: a document without the marker or without a balanced array gives
  the empty day schedule, and so does an array text that \<open>json.loads\<close> refuses with
  \<open>JSONDecodeError\<close>; when the \<open>try\<close> block ends with a \<open>JSONDecodeError\<close>, a \<open>KeyError\<close> or a
  \<open>TypeError\<close>, the day schedule returned holds the lessons converted before it, sorted.
  The field extractors fall back to defaults: a \<open>TimeStamp\<close> text of a message-list item
  that does not parse gives the current time, and a compose form without
  \<open>name="formkey"\<close> makes \<open>send_message\<close> post the empty form key.  Listing messages on a
  payload that \<open>json.loads\<close> refuses with a \<open>ValueError\<close> (a \<open>JSONDecodeError\<close> is one) raises
  \<open>WilmaAPIError\<close>, and replying when the compose form holds no \<open>name="formkey"\<close> raises
  \<open>WilmaAPIError\<close>.
\<close>

theorem extraction_degrades_or_raises_api_error:
  "((\<not> str_in ''Events : ['' html \<and> \<not> str_in ''Events: ['' html) \<or> events_str html = None
      \<longrightarrow> parse_schedule_from_html L html d = Inr \<lparr>date = d, lessons = []\<rparr>)
   \<and> (events_str html = Some es \<and> json_loads L es = Inl JSONDecodeError
      \<longrightarrow> parse_schedule_from_html L html d = Inr \<lparr>date = d, lessons = []\<rparr>)
   \<and> (events_str html = Some es \<and> try_events L es (strftime_dmy d) = (ls, Some e)
        \<and> (e = JSONDecodeError \<or> e = KeyError \<or> e = TypeError)
      \<longrightarrow> parse_schedule_from_html L html d
            = Inr \<lparr>date = d, lessons = sort_key start_time ls\<rparr>)
   \<and> (dict_get msg ''TimeStamp'' (JStr []) = Inr (JStr s)
        \<and> strptime L s ''%Y-%m-%d %H:%M'' = None
      \<longrightarrow> (\<exists>m. message_summary L now f msg = Inr m \<and> timestamp m = now))
   \<and> (request L net c ''GET'' ''/messages/compose'' None = (Inr r0, c0)
        \<and> \<not> str_in ''name=\"formkey\"'' (text r0)
      \<longrightarrow> send_message L net c recipient_ids subj body reply_to_id =
            (case request L net c0 ''POST'' ''/messages/compose''
                    (Some ([(''formkey'', JStr []), (''rcpt'', JStr (join_comma recipient_ids)),
                            (''subject'', JStr subj), (''body'', JStr body)]
                           @ (case reply_to_id of
                                None \<Rightarrow> []
                              | Some i \<Rightarrow> if i = [] then [] else [(''replyto'', JStr i)]))) of
               (Inl e, c2) \<Rightarrow> (Inl e, c2)
             | (Inr r, c2) \<Rightarrow>
                 (judge_response ''Failed to send message - server returned an error'' r, c2)))
   \<and> (request L net c ''GET'' ''/messages/list/index_json'' None = (Inr r, c1)
        \<and> json_loads L (text r) = Inl e' \<and> (e' = JSONDecodeError \<or> e' = ValueError)
      \<longrightarrow> get_messages L net now c f limit
            = (Inl (WilmaAPIError ''Failed to parse messages response''), c1))
   \<and> (request L net c ''GET'' (''/messages/compose?answer='' @ message_id) None = (Inr r', c1')
        \<and> \<not> str_in ''name=\"formkey\"'' (text r')
      \<longrightarrow> reply_to_message L net c message_id body
            = (Inl (WilmaAPIError ''Could not extract formkey from reply compose form''), c1'))"
proof (intro conjI impI)
  assume "(\<not> str_in ''Events : ['' html \<and> \<not> str_in ''Events: ['' html) \<or> events_str html = None"
  then show "parse_schedule_from_html L html d = Inr \<lparr>date = d, lessons = []\<rparr>"
    by (rule schedule_no_array)
next
  assume "events_str html = Some es \<and> json_loads L es = Inl JSONDecodeError"
  then have a: "events_str html = Some es" and b: "json_loads L es = Inl JSONDecodeError"
    by simp_all
  show "parse_schedule_from_html L html d = Inr \<lparr>date = d, lessons = []\<rparr>"
    by (rule schedule_not_json [OF a b])
next
  assume "events_str html = Some es \<and> try_events L es (strftime_dmy d) = (ls, Some e)
        \<and> (e = JSONDecodeError \<or> e = KeyError \<or> e = TypeError)"
  then have a: "events_str html = Some es"
    and b: "try_events L es (strftime_dmy d) = (ls, Some e)"
    and c: "e = JSONDecodeError \<or> e = KeyError \<or> e = TypeError"
    by simp_all
  show "parse_schedule_from_html L html d = Inr \<lparr>date = d, lessons = sort_key start_time ls\<rparr>"
    by (rule schedule_caught [OF a b c])
next
  assume "dict_get msg ''TimeStamp'' (JStr []) = Inr (JStr s)
        \<and> strptime L s ''%Y-%m-%d %H:%M'' = None"
  then have a: "dict_get msg ''TimeStamp'' (JStr []) = Inr (JStr s)"
    and b: "strptime L s ''%Y-%m-%d %H:%M'' = None"
    by simp_all
  show "\<exists>m. message_summary L now f msg = Inr m \<and> timestamp m = now"
    by (rule message_summary_now [OF a b])
next
  assume "request L net c ''GET'' ''/messages/compose'' None = (Inr r0, c0)
        \<and> \<not> str_in ''name=\"formkey\"'' (text r0)"
  then have a: "request L net c ''GET'' ''/messages/compose'' None = (Inr r0, c0)"
    and b: "\<not> str_in ''name=\"formkey\"'' (text r0)"
    by (rule conjunct1, rule conjunct2)
  show "send_message L net c recipient_ids subj body reply_to_id =
            (case request L net c0 ''POST'' ''/messages/compose''
                    (Some ([(''formkey'', JStr []), (''rcpt'', JStr (join_comma recipient_ids)),
                            (''subject'', JStr subj), (''body'', JStr body)]
                           @ (case reply_to_id of
                                None \<Rightarrow> []
                              | Some i \<Rightarrow> if i = [] then [] else [(''replyto'', JStr i)]))) of
               (Inl e, c2) \<Rightarrow> (Inl e, c2)
             | (Inr r, c2) \<Rightarrow>
                 (judge_response ''Failed to send message - server returned an error'' r, c2))"
    by (rule send_without_formkey [OF a b])
next
  assume "request L net c ''GET'' ''/messages/list/index_json'' None = (Inr r, c1)
        \<and> json_loads L (text r) = Inl e' \<and> (e' = JSONDecodeError \<or> e' = ValueError)"
  then have a: "request L net c ''GET'' ''/messages/list/index_json'' None = (Inr r, c1)"
    and b: "json_loads L (text r) = Inl e'" and c: "e' = JSONDecodeError \<or> e' = ValueError"
    by (rule conjunct1, (rule conjunct2 [THEN conjunct1]), (rule conjunct2 [THEN conjunct2]))
  show "get_messages L net now c f limit
            = (Inl (WilmaAPIError ''Failed to parse messages response''), c1)"
    by (rule get_messages_unparsable [OF a b c])
next
  assume "request L net c ''GET'' (''/messages/compose?answer='' @ message_id) None = (Inr r', c1')
        \<and> \<not> str_in ''name=\"formkey\"'' (text r')"
  then have a: "request L net c ''GET'' (''/messages/compose?answer='' @ message_id) None
        = (Inr r', c1')"
    and b: "\<not> str_in ''name=\"formkey\"'' (text r')" by (rule conjunct1, rule conjunct2)
  show "reply_to_message L net c message_id body
            = (Inl (WilmaAPIError ''Could not extract formkey from reply compose form''), c1')"
    by (rule reply_without_formkey [OF a b])
qed

text \<open>
  Claim C3 as stated fails: on a portal that answers with a maintenance page, listing the
  messages and replying to a message both raise \<open>WilmaAPIError\<close>.
\<close>

theorem extraction_raises_counterexample:
  "fst (get_messages example_lib maintenance_net clock1 logged_in_client ''inbox'' 20)
     = Inl (WilmaAPIError ''Failed to parse messages response'')
   \<and> fst (reply_to_message example_lib maintenance_net logged_in_client ''7'' ''hello'')
     = Inl (WilmaAPIError ''Could not extract formkey from reply compose form'')"
  by code_simp

theorem extraction_degrades_or_raises_api_error_witness:
  "parse_schedule_from_html example_lib (text maintenance_page) feb8
     = Inr \<lparr>date = feb8, lessons = []\<rparr>
   \<and> parse_schedule_from_html example_lib ''Events : [x y]'' feb8
     = Inr \<lparr>date = feb8, lessons = []\<rparr>
   \<and> parse_schedule_from_html example_lib bad_start_html feb8
     = Inr \<lparr>date = feb8, lessons =
         [\<lparr>start_time = ''08:30'', end_time = ''09:15'', subject = JStr [], teacher = JStr [],
           room = JNull, groups = [], notes = JStr []\<rparr>]\<rparr>
   \<and> (\<exists>m. message_summary example_lib clock1 ''inbox'' (JObj [(''TimeStamp'', JStr ''soon'')])
            = Inr m \<and> timestamp m = clock1)
   \<and> fst (send_message example_lib maintenance_net logged_in_client [''42''] ''s'' ''b'' None)
     = Inr True
   \<and> fst (get_messages example_lib maintenance_net clock1 logged_in_client ''inbox'' 20)
     = Inl (WilmaAPIError ''Failed to parse messages response'')
   \<and> fst (reply_to_message example_lib maintenance_net logged_in_client ''7'' ''b'')
     = Inl (WilmaAPIError ''Could not extract formkey from reply compose form'')"
proof -
  let ?get = "\<lambda>p. \<lparr>meth = ''GET'', path = p, form_data = None\<rparr>"
  let ?after = "\<lambda>p. logged_in_client\<lparr>sent := sent logged_in_client @ [?get p]\<rparr>"
  let ?lesson = "\<lparr>start_time = ''08:30'', end_time = ''09:15'', subject = JStr [],
      teacher = JStr [], room = JNull, groups = [], notes = JStr []\<rparr>"
  let ?data = "[(''formkey'', JStr []), (''rcpt'', JStr (join_comma [''42''])),
      (''subject'', JStr ''s''), (''body'', JStr ''b'')]
      @ (case None :: string option of
           None \<Rightarrow> []
         | Some i \<Rightarrow> if i = [] then [] else [(''replyto'', JStr i)])"
  have h1: "(\<not> str_in ''Events : ['' (text maintenance_page)
        \<and> \<not> str_in ''Events: ['' (text maintenance_page))
      \<or> events_str (text maintenance_page) = None"
    by code_simp
  have h2: "events_str ''Events : [x y]'' = Some ''[x y]''
      \<and> json_loads example_lib ''[x y]'' = Inl JSONDecodeError"
    by code_simp
  have h3: "events_str bad_start_html = Some bad_start_text
      \<and> try_events example_lib bad_start_text (strftime_dmy feb8) = ([?lesson], Some TypeError)
      \<and> (TypeError = JSONDecodeError \<or> TypeError = KeyError \<or> TypeError = TypeError)"
    by code_simp
  have h4: "dict_get (JObj [(''TimeStamp'', JStr ''soon'')]) ''TimeStamp'' (JStr []) = Inr (JStr ''soon'')
      \<and> strptime example_lib ''soon'' ''%Y-%m-%d %H:%M'' = None"
    by code_simp
  have h5: "request example_lib maintenance_net logged_in_client ''GET'' ''/messages/compose'' None
        = (Inr maintenance_page, ?after ''/!0411876/messages/compose'')
      \<and> \<not> str_in ''name=\"formkey\"'' (text maintenance_page)"
    by code_simp
  have h6: "request example_lib maintenance_net logged_in_client ''GET''
        ''/messages/list/index_json'' None
        = (Inr maintenance_page, ?after ''/!0411876/messages/list/index_json'')
      \<and> json_loads example_lib (text maintenance_page) = Inl JSONDecodeError
      \<and> (JSONDecodeError = JSONDecodeError \<or> JSONDecodeError = ValueError)"
    by code_simp
  have h7: "request example_lib maintenance_net logged_in_client ''GET''
        (''/messages/compose?answer='' @ ''7'') None
        = (Inr maintenance_page, ?after ''/!0411876/messages/compose?answer=7'')
      \<and> \<not> str_in ''name=\"formkey\"'' (text maintenance_page)"
    by code_simp
  have post: "fst (case request example_lib maintenance_net (?after ''/!0411876/messages/compose'')
            ''POST'' ''/messages/compose'' (Some ?data) of
       (Inl e, c2) \<Rightarrow> (Inl e, c2)
     | (Inr r, c2) \<Rightarrow>
         (judge_response ''Failed to send message - server returned an error'' r, c2))
     = Inr True"
    by code_simp
  note a = extraction_degrades_or_raises_api_error
    [where html = "text maintenance_page" and L = example_lib and d = feb8
      and msg = "JObj [(''TimeStamp'', JStr ''soon'')]" and s = "''soon''" and now = clock1
      and f = "''inbox''" and net = maintenance_net and c = logged_in_client
      and ?r0.0 = maintenance_page and ?c0.0 = "?after ''/!0411876/messages/compose''"
      and recipient_ids = "[''42'']" and subj = "''s''" and body = "''b''" and reply_to_id = None
      and r = maintenance_page and ?c1.0 = "?after ''/!0411876/messages/list/index_json''"
      and e' = JSONDecodeError and limit = 20
      and message_id = "''7''" and r' = maintenance_page
      and c1' = "?after ''/!0411876/messages/compose?answer=7''"]
  note b = extraction_degrades_or_raises_api_error
    [where html = "''Events : [x y]''" and es = "''[x y]''" and L = example_lib and d = feb8]
  note c = extraction_degrades_or_raises_api_error
    [where html = bad_start_html and es = bad_start_text and L = example_lib and d = feb8
      and ls = "[?lesson]" and e = TypeError]
  have r1: "parse_schedule_from_html example_lib (text maintenance_page) feb8
     = Inr \<lparr>date = feb8, lessons = []\<rparr>"
    by (rule a [THEN conjunct1, THEN mp, OF h1])
  have r2: "parse_schedule_from_html example_lib ''Events : [x y]'' feb8
     = Inr \<lparr>date = feb8, lessons = []\<rparr>"
    by (rule b [THEN conjunct2, THEN conjunct1, THEN mp, OF h2])
  have "parse_schedule_from_html example_lib bad_start_html feb8
     = Inr \<lparr>date = feb8, lessons = sort_key start_time [?lesson]\<rparr>"
    by (rule c [THEN conjunct2, THEN conjunct2, THEN conjunct1, THEN mp, OF h3])
  then have r3: "parse_schedule_from_html example_lib bad_start_html feb8
     = Inr \<lparr>date = feb8, lessons = [?lesson]\<rparr>"
    by simp
  have r4: "\<exists>m. message_summary example_lib clock1 ''inbox'' (JObj [(''TimeStamp'', JStr ''soon'')])
            = Inr m \<and> timestamp m = clock1"
    by (rule a [THEN conjunct2, THEN conjunct2, THEN conjunct2, THEN conjunct1, THEN mp, OF h4])
  have "send_message example_lib maintenance_net logged_in_client [''42''] ''s'' ''b'' None
     = (case request example_lib maintenance_net (?after ''/!0411876/messages/compose'')
            ''POST'' ''/messages/compose'' (Some ?data) of
       (Inl e, c2) \<Rightarrow> (Inl e, c2)
     | (Inr r, c2) \<Rightarrow>
         (judge_response ''Failed to send message - server returned an error'' r, c2))"
    by (rule a [THEN conjunct2, THEN conjunct2, THEN conjunct2, THEN conjunct2, THEN conjunct1,
          THEN mp, OF h5])
  with post have r5:
    "fst (send_message example_lib maintenance_net logged_in_client [''42''] ''s'' ''b'' None)
       = Inr True"
    by (simp only:)
  have "get_messages example_lib maintenance_net clock1 logged_in_client ''inbox'' 20
     = (Inl (WilmaAPIError ''Failed to parse messages response''),
        ?after ''/!0411876/messages/list/index_json'')"
    by (rule a [THEN conjunct2, THEN conjunct2, THEN conjunct2, THEN conjunct2, THEN conjunct2,
          THEN conjunct1, THEN mp, OF h6])
  then have r6: "fst (get_messages example_lib maintenance_net clock1 logged_in_client ''inbox'' 20)
     = Inl (WilmaAPIError ''Failed to parse messages response'')"
    by (simp only: fst_conv)
  have "reply_to_message example_lib maintenance_net logged_in_client ''7'' ''b''
     = (Inl (WilmaAPIError ''Could not extract formkey from reply compose form''),
        ?after ''/!0411876/messages/compose?answer=7'')"
    by (rule a [THEN conjunct2, THEN conjunct2, THEN conjunct2, THEN conjunct2, THEN conjunct2,
          THEN conjunct2, THEN mp, OF h7])
  then have r7: "fst (reply_to_message example_lib maintenance_net logged_in_client ''7'' ''b'')
     = Inl (WilmaAPIError ''Could not extract formkey from reply compose form'')"
    by (simp only: fst_conv)
  from r1 r2 r3 r4 r5 r6 r7 show ?thesis by (intro conjI)
qed

end
